theory Spec2Isabelle
  imports Main
begin

section \<open>Strings and numbers as the handler uses them\<close>

text \<open>
  JavaScript strings are modelled as \<open>string\<close> (byte lists). The helpers below are the
  string methods \<open>handleTelegramMessage\<close> calls: \<open>startsWith\<close>, \<open>lastIndexOf\<close>,
  \<open>substring\<close>, \<open>trim\<close>, \<open>split(/\s+/)\<close>, \<open>join(' ')\<close>, \<open>toLowerCase\<close> and
  \<open>toString\<close> on integers. A character is a code unit below 256: of the white
  space \<open>/\s/\<close> and \<open>trim\<close> recognise, these are the six ASCII ones and the
  no-break space U+00A0; letter case is the ASCII one. \<open>toString\<close> prints every
  digit, as \<open>Number.prototype.toString\<close> does for the integers of magnitude below
  \<open>10\<^sup>2\<^sup>1\<close>, which chat identifiers are.
\<close>

definition startsWith :: "string \<Rightarrow> string \<Rightarrow> bool" where
  "startsWith s p = (take (length p) s = p)"

fun lastIndexOf_from :: "char \<Rightarrow> string \<Rightarrow> int \<Rightarrow> int \<Rightarrow> int" where
  "lastIndexOf_from c [] i found = found"
| "lastIndexOf_from c (x # xs) i found =
     lastIndexOf_from c xs (i + 1) (if x = c then i else found)"

definition lastIndexOf :: "string \<Rightarrow> char \<Rightarrow> int" where
  "lastIndexOf s c = lastIndexOf_from c s 0 (- 1)"

definition substring :: "string \<Rightarrow> int \<Rightarrow> int \<Rightarrow> string" where
  "substring s a b = take (nat b - nat a) (drop (nat a) s)"

definition is_space :: "char \<Rightarrow> bool" where
  "is_space c = (c = CHR '' '' \<or> c = CHR 0x09 \<or> c = CHR 0x0A \<or> c = CHR 0x0B
                 \<or> c = CHR 0x0C \<or> c = CHR 0x0D \<or> c = CHR 0xA0)"

definition trim :: "string \<Rightarrow> string" where
  "trim s = rev (dropWhile is_space (rev (dropWhile is_space s)))"

fun split_ws_from :: "string \<Rightarrow> string \<Rightarrow> string list" where
  "split_ws_from cur [] = [rev cur]"
| "split_ws_from cur [c] = (if is_space c then [rev cur, []] else [rev (c # cur)])"
| "split_ws_from cur (c # d # cs) =
     (if is_space c
      then (if is_space d then split_ws_from cur (d # cs)
            else rev cur # split_ws_from [] (d # cs))
      else split_ws_from (c # cur) (d # cs))"

definition split_ws :: "string \<Rightarrow> string list" where
  "split_ws s = split_ws_from [] s"

fun join_sp :: "string list \<Rightarrow> string" where
  "join_sp [] = []"
| "join_sp [p] = p"
| "join_sp (p # q # ps) = p @ '' '' @ join_sp (q # ps)"

definition lower_char :: "char \<Rightarrow> char" where
  "lower_char c =
     (case map_of (zip ''ABCDEFGHIJKLMNOPQRSTUVWXYZ'' ''abcdefghijklmnopqrstuvwxyz'') c of
        Some d \<Rightarrow> d
      | None \<Rightarrow> c)"

definition toLowerCase :: "string \<Rightarrow> string" where
  "toLowerCase s = map lower_char s"

definition digit_char :: "nat \<Rightarrow> char" where
  "digit_char d = ''0123456789'' ! (d mod 10)"

fun show_nat :: "nat \<Rightarrow> string" where
  "show_nat n = (if n < 10 then [digit_char n] else show_nat (n div 10) @ [digit_char (n mod 10)])"

declare show_nat.simps [simp del]

definition toString :: "int \<Rightarrow> string" where
  "toString i = (if i < 0 then ''-'' @ show_nat (nat (- i)) else show_nat (nat i))"

text \<open>
  \<open>(fileSize / 1024 / 1024).toFixed(2)\<close>: the byte count is an integer, both divisions
  by 1024 are exact in binary64, and \<open>toFixed(2)\<close> picks the integer \<open>n\<close> nearest to a
  hundred times the quotient, the larger one on a tie. The decimal string it prints is
  modelled by that \<open>n\<close>, the number of hundredths of a megabyte. A file without
  \<open>file_size\<close> has \<open>fileSize\<close> undefined: the quotient is \<open>NaN\<close> and the string
  printed is \<open>NaN\<close>, which \<open>parseFloat\<close> reads back as \<open>NaN\<close>; a sum with a
  \<open>NaN\<close> summand is \<open>NaN\<close>.
\<close>

datatype mb2 = NaN | Mb nat

instantiation mb2 :: comm_monoid_add
begin

definition zero_mb2 :: mb2 where
  "zero_mb2 = Mb 0"

fun plus_mb2 :: "mb2 \<Rightarrow> mb2 \<Rightarrow> mb2" where
  "plus_mb2 (Mb a) (Mb b) = Mb (a + b)"
| "plus_mb2 NaN y = NaN"
| "plus_mb2 x NaN = NaN"

instance
proof (standard, goal_cases)
  case (1 x y z)
  then show ?case by (cases x; cases y; cases z) simp_all
next
  case (2 x y)
  then show ?case by (cases x; cases y) simp_all
next
  case (3 x)
  then show ?case by (cases x) (simp_all add: zero_mb2_def)
qed

end

fun toFixed2_of_bytes :: "nat option \<Rightarrow> mb2" where
  "toFixed2_of_bytes None = NaN"
| "toFixed2_of_bytes (Some b) = Mb ((200 * b + 1048576) div 2097152)"

text \<open>
  \<open>a > b\<close> on two numbers that may be undefined: an undefined operand converts to
  \<open>NaN\<close>, and every comparison with \<open>NaN\<close> is false.
\<close>

fun greater :: "nat option \<Rightarrow> nat option \<Rightarrow> bool" where
  "greater (Some a) (Some b) = (a > b)"
| "greater None y = False"
| "greater x None = False"

section \<open>The Telegram update\<close>

text \<open>
  The fields of the update the handler reads. \<open>file_size\<close> is optional in a photo
  size and in a document.
\<close>

record photo_size =
  p_file_id :: string
  p_file_size :: "nat option"

record tg_document =
  d_file_id :: string
  d_file_size :: "nat option"
  d_file_name :: "string option"
  d_mime_type :: "string option"

record tg_message =
  chat_id :: int
  msg_text :: "string option"
  photo :: "photo_size list option"
  document :: "tg_document option"
  media_group_id :: "string option"

record tg_update =
  message :: "tg_message option"

text \<open>JavaScript truthiness of an optional string: \<open>undefined\<close>, \<open>null\<close> and \<open>''\<close> are falsy.\<close>

fun truthy_str :: "string option \<Rightarrow> bool" where
  "truthy_str None = False"
| "truthy_str (Some s) = (s \<noteq> [])"

fun truthy_num :: "nat option \<Rightarrow> bool" where
  "truthy_num None = False"
| "truthy_num (Some n) = (n \<noteq> 0)"

section \<open>The key-value store\<close>

record file_meta =
  Channel :: string
  ChannelName :: string
  TgFileId :: string
  TgChatId :: string
  TgBotToken :: string
  FileName :: string
  FileType :: string
  FileSize :: mb2
  UploadIP :: string
  TimeStamp :: nat
  Label :: string
  Directory :: string
  Tags :: "string list"
  MediaGroupId :: "string option"
  TgProxyUrl :: "string option"

datatype meta = FileMeta file_meta | IndexMeta mb2

record batch_info =
  messageId :: "nat option"
  firstFileId :: "string option"

record webhook_config =
  enabled :: bool
  targetChannel :: "string option"

record channel =
  ch_name :: string
  botToken :: string
  proxyUrl :: "string option"

text \<open>
  A stored value is a string. The values this handler reads back through \<open>JSON.parse\<close>
  are modelled by the document they encode (\<open>JSON.stringify\<close> followed by
  \<open>JSON.parse\<close> is the identity on them); \<open>Str\<close> is a string stored as it is.
\<close>

datatype sval =
    Str string
  | BatchJson batch_info
  | WebhookJson webhook_config
  | UploadJson "channel list"

record entry =
  val :: sval
  meta :: "meta option"
  expirationTtl :: "nat option"

type_synonym kv = "(string \<times> entry) list"

text \<open>
  Modelled from the spec: the Key-Value Store Adapter (\<open>getDatabase\<close>, not among the
  sources). It is an associative store keyed by string with \<open>get\<close>, \<open>put\<close> with
  optional metadata and expiry, \<open>delete\<close>, \<open>list\<close> by prefix giving an ordered
  sequence of keys, and \<open>getWithMetadata\<close>. The store is an association list: \<open>put\<close>
  replaces the entry of a key in place or appends a new one.
\<close>

definition kv_get :: "kv \<Rightarrow> string \<Rightarrow> sval option" where
  "kv_get s k = map_option val (map_of s k)"

definition kv_getWithMetadata :: "kv \<Rightarrow> string \<Rightarrow> sval option \<times> meta option" where
  "kv_getWithMetadata s k =
     (case map_of s k of None \<Rightarrow> (None, None) | Some en \<Rightarrow> (Some (val en), meta en))"

fun kv_put :: "kv \<Rightarrow> string \<Rightarrow> entry \<Rightarrow> kv" where
  "kv_put [] k en = [(k, en)]"
| "kv_put ((k', en') # s) k en = (if k' = k then (k, en) # s else (k', en') # kv_put s k en)"

definition kv_delete :: "kv \<Rightarrow> string \<Rightarrow> kv" where
  "kv_delete s k = filter (\<lambda>p. fst p \<noteq> k) s"

definition kv_list :: "kv \<Rightarrow> string \<Rightarrow> string list" where
  "kv_list s p = filter (\<lambda>k. startsWith k p) (map fst s)"

section \<open>External calls, their failures and their trace\<close>

text \<open>
  Every call the handler makes on the outside world is an \<open>effect\<close>; the world keeps
  the store and the list of effects in the order they were issued. What the outside
  world answers is the environment \<open>env\<close> of one invocation: which calls raise (and
  with which message), what the identity allocator returns, how the index updater
  changes the store, what the notification client responds, and the clock.
\<close>

record task =
  task_group :: string
  task_chat :: string

datatype notice =
    CurrentDir string
  | DirSet string
  | ReceivingBatch
  | BatchDone nat mb2 "string option"
  | Saved string mb2

datatype effect =
    DbGet string
  | DbList string
  | DbGetWithMetadata string
  | DbPut string sval "meta option" "nat option"
  | DbDelete string
  | BuildUniqueFileId string string
  | EndUpload string
  | SendMessage string notice
  | EditMessageText string "nat option" notice
  | WaitUntil task

datatype error = Thrown string | TypeError | Malformed

record response =
  ok :: bool
  message_id :: nat

record env =
  fails :: "effect \<Rightarrow> string option"
  allocated :: "kv \<Rightarrow> string \<Rightarrow> string \<Rightarrow> string"
  indexed :: "kv \<Rightarrow> string \<Rightarrow> file_meta \<Rightarrow> kv"
  replies :: "string \<Rightarrow> notice \<Rightarrow> response"
  iso_date :: string
  now_name :: nat
  now_stamp :: nat

record world =
  store :: kv
  trace :: "effect list"

type_synonym 'a io = "world \<Rightarrow> (error + 'a) \<times> world"

definition ret :: "'a \<Rightarrow> 'a io" where
  "ret x w = (Inr x, w)"

definition raise :: "error \<Rightarrow> 'a io" where
  "raise er w = (Inl er, w)"

definition bnd :: "'a io \<Rightarrow> ('a \<Rightarrow> 'b io) \<Rightarrow> 'b io" where
  "bnd m f w = (case m w of (Inl er, w') \<Rightarrow> (Inl er, w') | (Inr x, w') \<Rightarrow> f x w')"

text \<open>\<open>try { m } catch (error) { h error }\<close>\<close>

definition catch :: "'a io \<Rightarrow> (error \<Rightarrow> 'a io) \<Rightarrow> 'a io" where
  "catch m h w = (case m w of (Inl er, w') \<Rightarrow> h er w' | (Inr x, w') \<Rightarrow> (Inr x, w'))"

fun error_message :: "error \<Rightarrow> string" where
  "error_message (Thrown msg) = msg"
| "error_message TypeError = ''TypeError''"
| "error_message Malformed = ''SyntaxError''"

definition call :: "env \<Rightarrow> effect \<Rightarrow> unit io" where
  "call e ef w =
     (case fails e ef of
        Some msg \<Rightarrow> (Inl (Thrown msg), w\<lparr>trace := trace w @ [ef]\<rparr>)
      | None \<Rightarrow> (Inr (), w\<lparr>trace := trace w @ [ef]\<rparr>))"

definition db_get :: "env \<Rightarrow> string \<Rightarrow> sval option io" where
  "db_get e k = bnd (call e (DbGet k)) (\<lambda>_ w. (Inr (kv_get (store w) k), w))"

definition db_list :: "env \<Rightarrow> string \<Rightarrow> string list io" where
  "db_list e p = bnd (call e (DbList p)) (\<lambda>_ w. (Inr (kv_list (store w) p), w))"

definition db_getWithMetadata :: "env \<Rightarrow> string \<Rightarrow> (sval option \<times> meta option) io" where
  "db_getWithMetadata e k =
     bnd (call e (DbGetWithMetadata k)) (\<lambda>_ w. (Inr (kv_getWithMetadata (store w) k), w))"

definition db_put :: "env \<Rightarrow> string \<Rightarrow> sval \<Rightarrow> meta option \<Rightarrow> nat option \<Rightarrow> unit io" where
  "db_put e k v m t =
     bnd (call e (DbPut k v m t))
       (\<lambda>_ w. (Inr (), w\<lparr>store := kv_put (store w) k \<lparr>val = v, meta = m, expirationTtl = t\<rparr>\<rparr>))"

definition db_delete :: "env \<Rightarrow> string \<Rightarrow> unit io" where
  "db_delete e k =
     bnd (call e (DbDelete k)) (\<lambda>_ w. (Inr (), w\<lparr>store := kv_delete (store w) k\<rparr>))"

text \<open>
  Modelled from the spec: the Identity Allocator \<open>buildUniqueFileId\<close> and the
  Finalize-Index Updater \<open>endUpload\<close> (\<open>uploadTools.js\<close>, not among the sources).
  The allocator returns a storage key for a folder and a desired name, consulting the
  store; the index updater may change the store and may fail.
\<close>

definition buildUniqueFileId :: "env \<Rightarrow> string \<Rightarrow> string \<Rightarrow> string io" where
  "buildUniqueFileId e uploadFolder desiredName =
     bnd (call e (BuildUniqueFileId uploadFolder desiredName))
       (\<lambda>_ w. (Inr (allocated e (store w) uploadFolder desiredName), w))"

definition endUpload :: "env \<Rightarrow> string \<Rightarrow> file_meta \<Rightarrow> unit io" where
  "endUpload e fullId md w =
     call e (EndUpload fullId) (w\<lparr>store := indexed e (store w) fullId md\<rparr>)"

text \<open>
  Modelled from the spec: the Notification Client (\<open>TelegramAPI\<close>, not among the
  sources): \<open>sendMessage\<close> answers \<open>{ok, result: {message_id}}\<close>, \<open>editMessageText\<close>
  answers or fails.
\<close>

definition sendMessage :: "env \<Rightarrow> string \<Rightarrow> notice \<Rightarrow> response io" where
  "sendMessage e chatId n = bnd (call e (SendMessage chatId n)) (\<lambda>_. ret (replies e chatId n))"

definition editMessageText :: "env \<Rightarrow> string \<Rightarrow> nat option \<Rightarrow> notice \<Rightarrow> unit io" where
  "editMessageText e chatId mid n = call e (EditMessageText chatId mid n)"

definition waitUntil :: "task \<Rightarrow> unit io" where
  "waitUntil t w = (Inr (), w\<lparr>trace := trace w @ [WaitUntil t]\<rparr>)"

section \<open>The message handler\<close>

datatype jsval = JBool bool | JStr string | JNull | JUndefined | JMeta file_meta

text \<open>A result is the object literal the handler returns: its fields in order.\<close>

type_synonym result = "(string \<times> jsval) list"

definition failure :: "string \<Rightarrow> result" where
  "failure r = [(''success'', JBool False), (''reason'', JStr r)]"

text \<open>\<open>a || b\<close> on an optional string.\<close>

fun or_else :: "string option \<Rightarrow> string \<Rightarrow> string" where
  "or_else None d = d"
| "or_else (Some s) d = (if s = [] then d else s)"

text \<open>
  \<open>db.get(key) || d\<close> where the value is used as a plain string; a stored JSON
  document there is outside what the handler expects.
\<close>

fun str_or :: "sval option \<Rightarrow> string \<Rightarrow> string io" where
  "str_or None d = ret d"
| "str_or (Some (Str s)) d = ret (if s = [] then d else s)"
| "str_or (Some (BatchJson b)) d = raise Malformed"
| "str_or (Some (WebhookJson c)) d = raise Malformed"
| "str_or (Some (UploadJson cs)) d = raise Malformed"

definition webhook_key :: string where
  "webhook_key = ''manage@sysConfig@telegram@webhook''"

definition upload_key :: string where
  "upload_key = ''manage@sysConfig@upload''"

definition dir_key :: "string \<Rightarrow> string" where
  "dir_key chatId = ''telegram_upload_dir_'' @ chatId"

definition batch_key :: "string \<Rightarrow> string" where
  "batch_key mediaGroupId = ''telegram_batch_'' @ mediaGroupId"

definition batch_index_prefix :: "string \<Rightarrow> string" where
  "batch_index_prefix mediaGroupId = ''batch_index_'' @ mediaGroupId @ ''_''"

definition batch_index_key :: "string \<Rightarrow> string \<Rightarrow> string" where
  "batch_index_key mediaGroupId fullId = batch_index_prefix mediaGroupId @ fullId"

text \<open>Lines 8 to 18.\<close>

definition getTelegramChannel :: "env \<Rightarrow> string option \<Rightarrow> channel option io" where
  "getTelegramChannel e channelName =
     bnd (db_get e upload_key) (\<lambda>uploadConfigStr.
       case uploadConfigStr of
         None \<Rightarrow> ret None
       | Some (Str s) \<Rightarrow> if s = [] then ret None else raise Malformed
       | Some (UploadJson channels) \<Rightarrow>
           ret (find (\<lambda>ch. Some (ch_name ch) = channelName) channels)
       | Some (BatchJson b) \<Rightarrow> raise Malformed
       | Some (WebhookJson c) \<Rightarrow> raise Malformed)"

text \<open>
  Reading the webhook configuration (lines 43 to 47 and 98 to 104): \<open>None\<close> is the
  \<open>webhook_not_configured\<close> return.
\<close>

definition read_webhook_config :: "env \<Rightarrow> webhook_config option io" where
  "read_webhook_config e =
     bnd (db_get e webhook_key) (\<lambda>webhookConfig.
       case webhookConfig of
         None \<Rightarrow> ret None
       | Some (Str s) \<Rightarrow> if s = [] then ret None else raise Malformed
       | Some (WebhookJson config) \<Rightarrow> ret (Some config)
       | Some (BatchJson b) \<Rightarrow> raise Malformed
       | Some (UploadJson cs) \<Rightarrow> raise Malformed)"

text \<open>The \<open>/dir\<close> command, lines 38 to 67.\<close>

definition command_parts :: "tg_message \<Rightarrow> string list option" where
  "command_parts m =
     (case msg_text m of
        None \<Rightarrow> None
      | Some t \<Rightarrow> if t \<noteq> [] \<and> startsWith t ''/'' then Some (split_ws (trim t)) else None)"

definition is_dir_command :: "tg_message \<Rightarrow> bool" where
  "is_dir_command m =
     (case command_parts m of
        None \<Rightarrow> False
      | Some parts \<Rightarrow> (case parts of [] \<Rightarrow> False | p # ps \<Rightarrow> toLowerCase p = ''/dir''))"

definition handle_dir_command :: "env \<Rightarrow> string \<Rightarrow> string list \<Rightarrow> result io" where
  "handle_dir_command e chatId parts =
     bnd (read_webhook_config e) (\<lambda>cfg.
       case cfg of
         None \<Rightarrow> ret (failure ''webhook_not_configured'')
       | Some config \<Rightarrow>
           bnd (getTelegramChannel e (targetChannel config)) (\<lambda>channel.
             case channel of
               None \<Rightarrow> ret (failure ''channel_not_found'')
             | Some ch \<Rightarrow>
                 bnd (if length parts < 2
                      then bnd (db_get e (dir_key chatId)) (\<lambda>v.
                             bnd (str_or v ''/'') (\<lambda>currentDir.
                               sendMessage e chatId (CurrentDir currentDir)))
                      else bnd (db_put e (dir_key chatId) (Str (trim (join_sp (tl parts)))) None None)
                             (\<lambda>_. sendMessage e chatId (DirSet (trim (join_sp (tl parts))))))
                   (\<lambda>_. ret [(''success'', JBool True), (''reason'', JStr ''command_handled'')])))"

text \<open>Choosing the file of the message, lines 69 to 95.\<close>

record file_info =
  fileId :: string
  fileSize :: "nat option"
  fileName :: string
  fileType :: string

text \<open>
  \<open>Array.prototype.reduce\<close> without an initial value: it starts from the first
  element and raises a TypeError on an empty array.
\<close>

fun reduce :: "('a \<Rightarrow> 'a \<Rightarrow> 'a) \<Rightarrow> 'a list \<Rightarrow> error + 'a" where
  "reduce f [] = Inl TypeError"
| "reduce f (x # xs) = Inr (foldl f x xs)"

definition largestPhoto :: "photo_size list \<Rightarrow> error + photo_size" where
  "largestPhoto ps =
     reduce (\<lambda>prev current. if greater (p_file_size prev) (p_file_size current)
                            then prev else current) ps"

definition image_mime :: "tg_document \<Rightarrow> bool" where
  "image_mime d = (case d_mime_type d of None \<Rightarrow> False | Some t \<Rightarrow> startsWith t ''image/'')"

definition extract_file :: "env \<Rightarrow> tg_message \<Rightarrow> error + file_info option" where
  "extract_file e m =
     (case photo m of
        Some ps \<Rightarrow>
          (case largestPhoto ps of
             Inl er \<Rightarrow> Inl er
           | Inr lp \<Rightarrow>
               Inr (Some \<lparr>fileId = p_file_id lp, fileSize = p_file_size lp,
                          fileName = ''photo_'' @ iso_date e @ ''_'' @ show_nat (now_name e) @ ''.jpg'',
                          fileType = ''image/jpeg''\<rparr>))
      | None \<Rightarrow>
          (case document m of
             None \<Rightarrow> Inr None
           | Some d \<Rightarrow>
               if image_mime d
               then Inr (Some \<lparr>fileId = d_file_id d, fileSize = d_file_size d,
                               fileName = or_else (d_file_name d)
                                            (''document_'' @ show_nat (now_name e) @ ''.jpg''),
                               fileType = or_else (d_mime_type d) ''image/jpeg''\<rparr>)
               else Inr None))"

text \<open>The deduplication scan, lines 110 to 117: the loop over the listed keys.\<close>

fun meta_TgFileId :: "meta option \<Rightarrow> string option" where
  "meta_TgFileId (Some (FileMeta md)) = Some (TgFileId md)"
| "meta_TgFileId (Some (IndexMeta sz)) = None"
| "meta_TgFileId None = None"

fun dedup_scan :: "env \<Rightarrow> string \<Rightarrow> string list \<Rightarrow> string option io" where
  "dedup_scan e fid [] w = (Inr None, w)"
| "dedup_scan e fid (k # ks) w =
     (case db_getWithMetadata e k w of
        (Inl er, w') \<Rightarrow> (Inl er, w')
      | (Inr fileData, w') \<Rightarrow>
          if meta_TgFileId (snd fileData) = Some fid then (Inr (Some k), w')
          else dedup_scan e fid ks w')"

text \<open>The directory of the allocated key and the metadata, lines 138 to 163.\<close>

definition actualDirectory :: "string \<Rightarrow> string" where
  "actualDirectory fullId =
     (if lastIndexOf fullId CHR ''/'' = - 1 then []
      else substring fullId 0 (lastIndexOf fullId CHR ''/'' + 1))"

fun nonempty :: "string option \<Rightarrow> string option" where
  "nonempty None = None"
| "nonempty (Some g) = (if g = [] then None else Some g)"

definition build_metadata ::
  "env \<Rightarrow> tg_message \<Rightarrow> string \<Rightarrow> file_info \<Rightarrow> webhook_config \<Rightarrow> channel \<Rightarrow> string \<Rightarrow> file_meta" where
  "build_metadata e m chatId fi config ch fullId =
     \<lparr>Channel = ''TelegramNew'',
      ChannelName = or_else (Some (ch_name ch)) (or_else (targetChannel config) []),
      TgFileId = fileId fi,
      TgChatId = chatId,
      TgBotToken = botToken ch,
      FileName = fileName fi,
      FileType = ''image/jpeg'',
      FileSize = toFixed2_of_bytes (fileSize fi),
      UploadIP = ''Bot'',
      TimeStamp = now_stamp e,
      Label = ''None'',
      Directory = actualDirectory fullId,
      Tags = [],
      MediaGroupId = nonempty (media_group_id m),
      TgProxyUrl = nonempty (proxyUrl ch)\<rparr>"

text \<open>
  Writing to the store, lines 168 to 183: both puts stand in one \<open>try\<close>; the result is
  the message of the caught error, if any.
\<close>

definition write_db :: "env \<Rightarrow> string \<Rightarrow> file_meta \<Rightarrow> string option \<Rightarrow> string option io" where
  "write_db e fullId md mediaGroupId =
     catch
       (bnd (db_put e fullId (Str []) (Some (FileMeta md)) None) (\<lambda>_.
          case nonempty mediaGroupId of
            Some g \<Rightarrow>
              bnd (db_put e (batch_index_key g fullId) (Str fullId)
                     (Some (IndexMeta (FileSize md))) (Some 3600))
                (\<lambda>_. ret None)
          | None \<Rightarrow> ret None))
       (\<lambda>er. ret (Some (error_message er)))"

text \<open>
  The batch bookkeeping of a grouped file, lines 195 to 257, in the three stretches
  between which the handler awaits: reading the BatchState (196 to 206), the
  first-file notification (208 to 221), and the write with its deferred task
  (223 to 257).
\<close>

definition batch_read :: "env \<Rightarrow> string \<Rightarrow> string \<Rightarrow> batch_info io" where
  "batch_read e fullId g =
     bnd (db_get e (batch_key g)) (\<lambda>batchData.
       bnd (case batchData of
              None \<Rightarrow> ret \<lparr>messageId = None, firstFileId = None\<rparr>
            | Some (Str s) \<Rightarrow>
                if s = [] then ret \<lparr>messageId = None, firstFileId = None\<rparr> else raise Malformed
            | Some (BatchJson b) \<Rightarrow> ret b
            | Some (WebhookJson c) \<Rightarrow> raise Malformed
            | Some (UploadJson cs) \<Rightarrow> raise Malformed)
         (\<lambda>batchInfo.
            ret (if \<not> truthy_str (firstFileId batchInfo)
                 then batchInfo\<lparr>firstFileId := Some fullId\<rparr> else batchInfo)))"

definition batch_send :: "env \<Rightarrow> string \<Rightarrow> batch_info \<Rightarrow> batch_info io" where
  "batch_send e chatId batchInfo =
     (if \<not> truthy_num (messageId batchInfo)
      then catch
             (bnd (sendMessage e chatId ReceivingBatch) (\<lambda>response.
                ret (if ok response then batchInfo\<lparr>messageId := Some (message_id response)\<rparr>
                     else batchInfo)))
             (\<lambda>er. ret batchInfo)
      else ret batchInfo)"

definition batch_write :: "env \<Rightarrow> string \<Rightarrow> string \<Rightarrow> batch_info \<Rightarrow> unit io" where
  "batch_write e chatId g batchInfo =
     bnd (db_put e (batch_key g) (BatchJson batchInfo) None (Some 60))
       (\<lambda>_. waitUntil \<lparr>task_group = g, task_chat = chatId\<rparr>)"

definition batch_step :: "env \<Rightarrow> string \<Rightarrow> string \<Rightarrow> string \<Rightarrow> unit io" where
  "batch_step e chatId fullId g =
     bnd (batch_read e fullId g) (\<lambda>batchInfo.
       bnd (batch_send e chatId batchInfo) (\<lambda>batchInfo'.
         batch_write e chatId g batchInfo'))"

text \<open>The reply to a file outside any group, lines 258 to 264.\<close>

definition single_reply :: "env \<Rightarrow> string \<Rightarrow> string \<Rightarrow> file_meta \<Rightarrow> unit io" where
  "single_reply e chatId fullId md =
     catch (bnd (sendMessage e chatId (Saved fullId (FileSize md))) (\<lambda>_. ret ()))
       (\<lambda>er. ret ())"

definition success :: "string \<Rightarrow> file_meta \<Rightarrow> string option \<Rightarrow> result" where
  "success fullId md mediaGroupId =
     [(''success'', JBool True), (''fileId'', JStr fullId), (''metadata'', JMeta md),
      (''mediaGroupId'', (case mediaGroupId of None \<Rightarrow> JUndefined | Some g \<Rightarrow> JStr g))]"

text \<open>After the metadata is built: lines 165 to 271.\<close>

definition store_and_notify ::
  "env \<Rightarrow> string \<Rightarrow> string \<Rightarrow> file_meta \<Rightarrow> string option \<Rightarrow> result io" where
  "store_and_notify e chatId fullId md mediaGroupId =
     bnd (write_db e fullId md mediaGroupId) (\<lambda>failed.
       case failed of
         Some msg \<Rightarrow>
           ret [(''success'', JBool False), (''reason'', JStr ''database_error''),
                (''error'', JStr msg)]
       | None \<Rightarrow>
           bnd (catch (endUpload e fullId md) (\<lambda>er. ret ())) (\<lambda>_.
             bnd (case nonempty mediaGroupId of
                    Some g \<Rightarrow> batch_step e chatId fullId g
                  | None \<Rightarrow> single_reply e chatId fullId md)
               (\<lambda>_. ret (success fullId md mediaGroupId))))"

text \<open>After a file was chosen: lines 97 to 271.\<close>

definition process_file :: "env \<Rightarrow> tg_message \<Rightarrow> string \<Rightarrow> file_info \<Rightarrow> result io" where
  "process_file e m chatId fi =
     bnd (read_webhook_config e) (\<lambda>cfg.
       case cfg of
         None \<Rightarrow> ret (failure ''webhook_not_configured'')
       | Some config \<Rightarrow>
           if \<not> enabled config \<or> \<not> truthy_str (targetChannel config)
           then ret (failure ''webhook_disabled'')
           else
             bnd (db_list e []) (\<lambda>existingFiles.
               bnd (dedup_scan e (fileId fi) existingFiles) (\<lambda>dup.
                 case dup of
                   Some k \<Rightarrow>
                     ret [(''success'', JBool False), (''reason'', JStr ''already_saved''),
                          (''existingFileId'', JStr k)]
                 | None \<Rightarrow>
                     bnd (db_get e (dir_key chatId)) (\<lambda>v.
                       bnd (str_or v []) (\<lambda>uploadDir.
                         bnd (getTelegramChannel e (targetChannel config)) (\<lambda>channel.
                           case channel of
                             None \<Rightarrow> ret (failure ''channel_not_found'')
                           | Some ch \<Rightarrow>
                               bnd (buildUniqueFileId e uploadDir (fileName fi)) (\<lambda>fullId.
                                 store_and_notify e chatId fullId
                                   (build_metadata e m chatId fi config ch fullId)
                                   (media_group_id m))))))))"

text \<open>The handler, lines 26 to 272.\<close>

definition handleTelegramMessage :: "env \<Rightarrow> tg_update \<Rightarrow> result io" where
  "handleTelegramMessage e upd =
     (case message upd of
        None \<Rightarrow> ret (failure ''no_message'')
      | Some m \<Rightarrow>
          if is_dir_command m
          then (case command_parts m of
                  None \<Rightarrow> raise TypeError
                | Some parts \<Rightarrow> handle_dir_command e (toString (chat_id m)) parts)
          else (case extract_file e m of
                  Inl er \<Rightarrow> raise er
                | Inr None \<Rightarrow> ret (failure ''not_image'')
                | Inr (Some fi) \<Rightarrow> process_file e m (toString (chat_id m)) fi))"

section \<open>The deferred finalize task\<close>

text \<open>
  The body of the task handed to \<open>waitUntil\<close>, lines 227 to 257, from the moment its
  five-second timer fires. It runs in the environment of the moment it wakes.
\<close>

fun meta_size :: "meta option \<Rightarrow> mb2" where
  "meta_size (Some (IndexMeta sz)) = sz"
| "meta_size (Some (FileMeta md)) = 0"
| "meta_size None = 0"

fun sum_sizes :: "env \<Rightarrow> string list \<Rightarrow> mb2 \<Rightarrow> mb2 io" where
  "sum_sizes e [] finalTotalSize w = (Inr finalTotalSize, w)"
| "sum_sizes e (k # ks) finalTotalSize w =
     (case db_getWithMetadata e k w of
        (Inl er, w') \<Rightarrow> (Inl er, w')
      | (Inr fileData, w') \<Rightarrow> sum_sizes e ks (finalTotalSize + meta_size (snd fileData)) w')"

definition finalize_work :: "env \<Rightarrow> task \<Rightarrow> batch_info \<Rightarrow> unit io" where
  "finalize_work e t finalBatchInfo =
     bnd (db_list e (batch_index_prefix (task_group t))) (\<lambda>finalBatchFiles.
       bnd (sum_sizes e finalBatchFiles 0) (\<lambda>finalTotalSize.
         catch
           (bnd (editMessageText e (task_chat t) (messageId finalBatchInfo)
                   (BatchDone (length finalBatchFiles) finalTotalSize
                      (firstFileId finalBatchInfo)))
              (\<lambda>_. db_delete e (batch_key (task_group t))))
           (\<lambda>er. ret ())))"

definition finalize :: "env \<Rightarrow> task \<Rightarrow> unit io" where
  "finalize e t =
     bnd (db_get e (batch_key (task_group t))) (\<lambda>finalBatchData.
       case finalBatchData of
         None \<Rightarrow> ret ()
       | Some (Str s) \<Rightarrow> if s = [] then ret () else raise Malformed
       | Some (BatchJson finalBatchInfo) \<Rightarrow> finalize_work e t finalBatchInfo
       | Some (WebhookJson c) \<Rightarrow> raise Malformed
       | Some (UploadJson cs) \<Rightarrow> raise Malformed)"

section \<open>Vocabulary of the properties\<close>

text \<open>Effects that only read the store.\<close>

fun is_read :: "effect \<Rightarrow> bool" where
  "is_read (DbGet k) = True"
| "is_read (DbList p) = True"
| "is_read (DbGetWithMetadata k) = True"
| "is_read (DbPut k v m t) = False"
| "is_read (DbDelete k) = False"
| "is_read (BuildUniqueFileId d n) = False"
| "is_read (EndUpload f) = False"
| "is_read (SendMessage c n) = False"
| "is_read (EditMessageText c i n) = False"
| "is_read (WaitUntil t) = False"

text \<open>
  A computation is quiet when it leaves the store as it was and issues only reads; it
  issues \<open>P\<close> when every effect it adds to the trace satisfies \<open>P\<close>.
\<close>

definition quiet :: "'a io \<Rightarrow> bool" where
  "quiet m = (\<forall>w. store (snd (m w)) = store w \<and>
                  (\<exists>ops. trace (snd (m w)) = trace w @ ops \<and> list_all is_read ops))"

definition issues :: "(effect \<Rightarrow> bool) \<Rightarrow> 'a io \<Rightarrow> bool" where
  "issues P m = (\<forall>w. \<exists>ops. trace (snd (m w)) = trace w @ ops \<and> list_all P ops)"

text \<open>
  The file identifier and the size a store write carries: in the metadata of a stored
  file, and as the recorded size of a batch-index entry.
\<close>

fun carries :: "string \<Rightarrow> mb2 \<Rightarrow> effect \<Rightarrow> bool" where
  "carries fid sz (DbPut k v (Some (FileMeta md)) t) = (TgFileId md = fid \<and> FileSize md = sz)"
| "carries fid sz (DbPut k v (Some (IndexMeta s)) t) = (s = sz)"
| "carries fid sz ef = True"

text \<open>A configured store, a reliable environment and an album photo, for examples.\<close>

definition example_env :: env where
  "example_env =
     \<lparr>fails = (\<lambda>ef. None),
      allocated = (\<lambda>s folder name. folder @ ''/'' @ name),
      indexed = (\<lambda>s fullId md. s),
      replies = (\<lambda>chatId n. \<lparr>ok = True, message_id = 101\<rparr>),
      iso_date = ''2024-05-01'', now_name = 7, now_stamp = 8\<rparr>"

definition example_store :: kv where
  "example_store =
     [(''manage@sysConfig@telegram@webhook'',
       \<lparr>val = WebhookJson \<lparr>enabled = True, targetChannel = Some ''main''\<rparr>,
        meta = None, expirationTtl = None\<rparr>),
      (''manage@sysConfig@upload'',
       \<lparr>val = UploadJson [\<lparr>ch_name = ''main'', botToken = ''tok'', proxyUrl = None\<rparr>],
        meta = None, expirationTtl = None\<rparr>)]"

definition example_photos :: "photo_size list" where
  "example_photos =
     [\<lparr>p_file_id = ''small'', p_file_size = Some 10\<rparr>,
      \<lparr>p_file_id = ''large1'', p_file_size = Some 20\<rparr>,
      \<lparr>p_file_id = ''large2'', p_file_size = Some 20\<rparr>]"

definition example_photo_message :: tg_message where
  "example_photo_message =
     \<lparr>chat_id = 42, msg_text = None, photo = Some example_photos, document = None,
      media_group_id = None\<rparr>"

definition refusal :: "error + result \<Rightarrow> bool" where
  "refusal r = (case r of Inl er \<Rightarrow> True
                | Inr res \<Rightarrow> map_of res ''success'' = Some (JBool False)
                            \<and> map_of res ''error'' = None)"

definition stored_duplicate :: "kv \<Rightarrow> string \<Rightarrow> bool" where
  "stored_duplicate s fid =
     list_ex (\<lambda>k. meta_TgFileId (snd (kv_getWithMetadata s k)) = Some fid) (kv_list s [])"

text \<open>A stored file with a given origin identifier, and a store holding the example
  photo already, with and without the webhook configuration.\<close>

definition example_meta :: "string \<Rightarrow> file_meta" where
  "example_meta fid =
     \<lparr>Channel = ''TelegramNew'', ChannelName = ''main'', TgFileId = fid, TgChatId = ''42'',
      TgBotToken = ''tok'', FileName = ''a.jpg'', FileType = ''image/jpeg'', FileSize = Mb 0,
      UploadIP = ''Bot'', TimeStamp = 1, Label = ''None'', Directory = ''img/'', Tags = [],
      MediaGroupId = None, TgProxyUrl = None\<rparr>"

definition stored_photo :: "string \<times> entry" where
  "stored_photo =
     (''img/a.jpg'',
      \<lparr>val = Str [], meta = Some (FileMeta (example_meta ''large2'')), expirationTtl = None\<rparr>)"

definition example_photo_info :: file_info where
  "example_photo_info =
     \<lparr>fileId = ''large2'', fileSize = Some 20, fileName = ''photo_2024-05-01_7.jpg'',
      fileType = ''image/jpeg''\<rparr>"

text \<open>A photo array whose second entry carries no \<open>file_size\<close>, and a message with it.\<close>

definition example_unsized_photos :: "photo_size list" where
  "example_unsized_photos =
     [\<lparr>p_file_id = ''big'', p_file_size = Some 20\<rparr>,
      \<lparr>p_file_id = ''unsized'', p_file_size = None\<rparr>,
      \<lparr>p_file_id = ''little'', p_file_size = Some 10\<rparr>]"

definition example_unsized_message :: tg_message where
  "example_unsized_message = example_photo_message\<lparr>photo := Some example_unsized_photos\<rparr>"

text \<open>The kinds of effects the claims speak of.\<close>

fun is_file_put :: "effect \<Rightarrow> bool" where
  "is_file_put (DbPut k v (Some (FileMeta md)) t) = True"
| "is_file_put ef = False"

fun is_index_put :: "effect \<Rightarrow> bool" where
  "is_index_put (DbPut k v (Some (IndexMeta sz)) t) = True"
| "is_index_put ef = False"

fun is_batch_put :: "effect \<Rightarrow> bool" where
  "is_batch_put (DbPut k (BatchJson b) mt t) = True"
| "is_batch_put ef = False"

text \<open>
  A read of a BatchState record: a \<open>get\<close> or a \<open>getWithMetadata\<close> of a key of the
  form \<open>telegram_batch_<group>\<close>.
\<close>

definition is_batch_key :: "string \<Rightarrow> bool" where
  "is_batch_key k = startsWith k ''telegram_batch_''"

fun is_batch_read :: "effect \<Rightarrow> bool" where
  "is_batch_read (DbGet k) = is_batch_key k"
| "is_batch_read (DbGetWithMetadata k) = is_batch_key k"
| "is_batch_read ef = False"

fun is_send :: "effect \<Rightarrow> bool" where
  "is_send (SendMessage c n) = True"
| "is_send ef = False"

fun is_wait :: "effect \<Rightarrow> bool" where
  "is_wait (WaitUntil t) = True"
| "is_wait ef = False"

definition file_entry :: "file_meta \<Rightarrow> entry" where
  "file_entry md = \<lparr>val = Str [], meta = Some (FileMeta md), expirationTtl = None\<rparr>"

definition index_entry :: "string \<Rightarrow> file_meta \<Rightarrow> entry" where
  "index_entry fullId md =
     \<lparr>val = Str fullId, meta = Some (IndexMeta (FileSize md)), expirationTtl = Some 3600\<rparr>"

definition database_error :: "string \<Rightarrow> result" where
  "database_error msg =
     [(''success'', JBool False), (''reason'', JStr ''database_error''), (''error'', JStr msg)]"

text \<open>An album photo of group \<open>g1\<close>, and an environment whose batch-index writes fail.\<close>

definition example_album_message :: tg_message where
  "example_album_message = example_photo_message\<lparr>media_group_id := Some ''g1''\<rparr>"

definition index_failing_env :: env where
  "index_failing_env =
     example_env\<lparr>fails := (\<lambda>ef. if is_index_put ef then Some ''quota'' else None)\<rparr>"

text \<open>A computation returns \<open>Q\<close> when every value it returns satisfies \<open>Q\<close>.\<close>

definition returns :: "('a \<Rightarrow> bool) \<Rightarrow> 'a io \<Rightarrow> bool" where
  "returns Q m = (\<forall>w. case fst (m w) of Inl er \<Rightarrow> True | Inr x \<Rightarrow> Q x)"

text \<open>The results \<open>handleTelegramMessage\<close> builds, by the return statement they come from.\<close>

definition command_handled :: result where
  "command_handled = [(''success'', JBool True), (''reason'', JStr ''command_handled'')]"

definition already_saved :: "string \<Rightarrow> result" where
  "already_saved k =
     [(''success'', JBool False), (''reason'', JStr ''already_saved''), (''existingFileId'', JStr k)]"

definition refusal_reasons :: "string list" where
  "refusal_reasons =
     [''no_message'', ''not_image'', ''webhook_not_configured'', ''webhook_disabled'',
      ''channel_not_found'']"

definition result_form :: "result \<Rightarrow> bool" where
  "result_form res =
     ((\<exists>reason. reason \<in> set refusal_reasons \<and> res = failure reason)
      \<or> res = command_handled
      \<or> (\<exists>k. res = already_saved k)
      \<or> (\<exists>msg. res = database_error msg)
      \<or> (\<exists>fullId md mediaGroupId. res = success fullId md mediaGroupId))"

text \<open>
  The result shape of the specification:
  \<open>{ success: bool, reason?: enum, fileId?: string, metadata?: object,
  mediaGroupId?: string|null }\<close>. A field of another name does not fit, an optional
  field may be \<open>undefined\<close>.
\<close>

fun shape_field :: "string \<Rightarrow> jsval \<Rightarrow> bool" where
  "shape_field k (JBool b) = (k = ''success'')"
| "shape_field k (JStr s) = (k = ''reason'' \<or> k = ''fileId'' \<or> k = ''mediaGroupId'')"
| "shape_field k JNull = (k = ''mediaGroupId'')"
| "shape_field k JUndefined =
     (k = ''reason'' \<or> k = ''fileId'' \<or> k = ''metadata'' \<or> k = ''mediaGroupId'')"
| "shape_field k (JMeta md) = (k = ''metadata'')"

definition conforms :: "result \<Rightarrow> bool" where
  "conforms res =
     (list_all (\<lambda>p. shape_field (fst p) (snd p)) res
      \<and> (\<exists>b. map_of res ''success'' = Some (JBool b)))"

text \<open>The metadata the example photo is stored with, in the example store.\<close>

definition example_stored_meta :: file_meta where
  "example_stored_meta =
     build_metadata example_env example_photo_message ''42'' example_photo_info
       \<lparr>enabled = True, targetChannel = Some ''main''\<rparr>
       \<lparr>ch_name = ''main'', botToken = ''tok'', proxyUrl = None\<rparr> ''/photo_2024-05-01_7.jpg''"

text \<open>A PNG image sent as a document, of 131072 bytes (0.125 megabytes).\<close>

definition example_png_message :: tg_message where
  "example_png_message =
     \<lparr>chat_id = 42, msg_text = None, photo = None,
      document = Some \<lparr>d_file_id = ''doc1'', d_file_size = Some 131072,
                       d_file_name = Some ''cat.png'', d_mime_type = Some ''image/png''\<rparr>,
      media_group_id = None\<rparr>"

text \<open>
  The batch-index keys the store lists for a group, the size recorded with a key (zero
  when there is none), and the notification edit the finalize task of a group issues
  for a BatchState.
\<close>

definition index_keys :: "kv \<Rightarrow> string \<Rightarrow> string list" where
  "index_keys s g = kv_list s (batch_index_prefix g)"

definition recorded_size :: "kv \<Rightarrow> string \<Rightarrow> mb2" where
  "recorded_size s k = meta_size (snd (kv_getWithMetadata s k))"

definition final_edit :: "kv \<Rightarrow> task \<Rightarrow> batch_info \<Rightarrow> effect" where
  "final_edit s t b =
     EditMessageText (task_chat t) (messageId b)
       (BatchDone (length (index_keys s (task_group t)))
          (sum_list (map (recorded_size s) (index_keys s (task_group t))))
          (firstFileId b))"

definition final_reads :: "kv \<Rightarrow> task \<Rightarrow> effect list" where
  "final_reads s t =
     [DbGet (batch_key (task_group t)), DbList (batch_index_prefix (task_group t))]
     @ map DbGetWithMetadata (index_keys s (task_group t))"

text \<open>An edit of the notification, and one that reports a given count and total size.\<close>

fun is_edit :: "effect \<Rightarrow> bool" where
  "is_edit (EditMessageText c i n) = True"
| "is_edit ef = False"


text \<open>
  The store after two photos of the album \<open>g1\<close> have arrived: two batch-index entries
  and the BatchState of the group.
\<close>

definition example_batch_store :: kv where
  "example_batch_store =
     example_store @
     [(''batch_index_g1_/a.jpg'',
       \<lparr>val = Str ''/a.jpg'', meta = Some (IndexMeta (Mb 13)), expirationTtl = Some 3600\<rparr>),
      (''batch_index_g1_/b.jpg'',
       \<lparr>val = Str ''/b.jpg'', meta = Some (IndexMeta (Mb 250)), expirationTtl = Some 3600\<rparr>),
      (''telegram_batch_g1'',
       \<lparr>val = BatchJson \<lparr>messageId = Some 101, firstFileId = Some ''/a.jpg''\<rparr>,
        meta = None, expirationTtl = Some 60\<rparr>)]"

definition example_task :: task where
  "example_task = \<lparr>task_group = ''g1'', task_chat = ''42''\<rparr>"

fun is_delete :: "effect \<Rightarrow> bool" where
  "is_delete (DbDelete k) = True"
| "is_delete ef = False"

fun is_list :: "effect \<Rightarrow> bool" where
  "is_list (DbList p) = True"
| "is_list ef = False"

text \<open>
  The store of the album \<open>g1\<close> when every send of the receiving notification has
  failed, and an environment in which editing a message fails.
\<close>

definition example_unnotified_store :: kv where
  "example_unnotified_store =
     example_store @
     [(''batch_index_g1_/a.jpg'',
       \<lparr>val = Str ''/a.jpg'', meta = Some (IndexMeta (Mb 13)), expirationTtl = Some 3600\<rparr>),
      (''telegram_batch_g1'',
       \<lparr>val = BatchJson \<lparr>messageId = None, firstFileId = Some ''/a.jpg''\<rparr>,
        meta = None, expirationTtl = Some 60\<rparr>)]"

definition edit_failing_env :: env where
  "edit_failing_env =
     example_env\<lparr>fails := (\<lambda>ef. if is_edit ef then Some ''Bad Request'' else None)\<rparr>"

text \<open>Finalize tasks that wake one after another, each in its own environment.\<close>

fun run_tasks :: "(env \<times> task) list \<Rightarrow> world \<Rightarrow> world" where
  "run_tasks [] w = w"
| "run_tasks (et # ets) w = run_tasks ets (snd (finalize (fst et) (snd et) w))"

text \<open>
  A second photo of the album \<open>g1\<close> and the environment of its arrival, and the run
  in which it arrives after the finalize task of the first photo has run: first
  arrival, its finalize task, second arrival, its finalize task.
\<close>

definition example_album_message2 :: tg_message where
  "example_album_message2 =
     \<lparr>chat_id = 42, msg_text = None,
      photo = Some [\<lparr>p_file_id = ''second'', p_file_size = Some 30\<rparr>], document = None,
      media_group_id = Some ''g1''\<rparr>"

definition later_env :: env where
  "later_env = example_env\<lparr>replies := (\<lambda>chatId n. \<lparr>ok = True, message_id = 102\<rparr>),
                             now_name := 9\<rparr>"

definition late_arrival_run :: world where
  "late_arrival_run =
     snd (finalize later_env example_task
       (snd (handleTelegramMessage later_env \<lparr>message = Some example_album_message2\<rparr>
         (snd (finalize example_env example_task
           (snd (handleTelegramMessage example_env \<lparr>message = Some example_album_message\<rparr>
             \<lparr>store = example_store, trace = []\<rparr>)))))))"



section \<open>Proof rules for quiet computations and for the effects they issue\<close>

lemma quietD:
  assumes "quiet m" and "m w = (r, w')"
  obtains ops where "w' = w\<lparr>trace := trace w @ ops\<rparr>" and "list_all is_read ops"
proof -
  from assms have s: "store w' = store w"
    and "\<exists>ops. trace w' = trace w @ ops \<and> list_all is_read ops"
    unfolding quiet_def by (metis snd_conv)+
  then obtain ops where t: "trace w' = trace w @ ops" and r: "list_all is_read ops" by blast
  from s t have "w' = w\<lparr>trace := trace w @ ops\<rparr>" by simp
  with r show thesis using that by blast
qed

lemma quiet_ret [simp, intro!]: "quiet (ret x)"
  by (simp add: quiet_def ret_def)

lemma quiet_raise [simp, intro!]: "quiet (raise er)"
  by (simp add: quiet_def raise_def)

lemma quiet_bnd [intro!]:
  assumes "quiet m" and "\<And>x. quiet (f x)"
  shows "quiet (bnd m f)"
  unfolding quiet_def
proof
  fix w
  obtain r w1 where m: "m w = (r, w1)" by (cases "m w")
  from quietD [OF assms(1) m] obtain ops1
    where w1: "w1 = w\<lparr>trace := trace w @ ops1\<rparr>" and r1: "list_all is_read ops1" by blast
  show "store (snd (bnd m f w)) = store w \<and>
        (\<exists>ops. trace (snd (bnd m f w)) = trace w @ ops \<and> list_all is_read ops)"
  proof (cases r)
    case (Inl er)
    with m w1 r1 show ?thesis by (auto simp: bnd_def)
  next
    case (Inr x)
    obtain r2 w2 where f: "f x w1 = (r2, w2)" by (cases "f x w1")
    from quietD [OF assms(2) f] obtain ops2
      where w2: "w2 = w1\<lparr>trace := trace w1 @ ops2\<rparr>" and r2: "list_all is_read ops2" by blast
    from Inr m f have "bnd m f w = (r2, w2)" by (simp add: bnd_def)
    with w1 w2 r1 r2 show ?thesis by auto
  qed
qed

lemma quiet_call: "is_read ef \<Longrightarrow> quiet (call e ef)"
  by (auto simp: quiet_def call_def split: option.splits)

lemma quiet_db_get [simp, intro!]: "quiet (db_get e k)"
  by (auto simp: quiet_def db_get_def bnd_def call_def split: option.splits)

lemma quiet_db_list [simp, intro!]: "quiet (db_list e p)"
  by (auto simp: quiet_def db_list_def bnd_def call_def split: option.splits)

lemma quiet_db_getWithMetadata [simp, intro!]: "quiet (db_getWithMetadata e k)"
  by (auto simp: quiet_def db_getWithMetadata_def bnd_def call_def split: option.splits)

lemma quiet_str_or [simp, intro!]: "quiet (str_or v d)"
  by (cases "(v, d)" rule: str_or.cases) auto

lemma quiet_read_webhook_config [simp, intro!]: "quiet (read_webhook_config e)"
  unfolding read_webhook_config_def
  by (auto split: option.split sval.split)

lemma quiet_getTelegramChannel [simp, intro!]: "quiet (getTelegramChannel e n)"
  unfolding getTelegramChannel_def
  by (auto split: option.split sval.split)

lemma quiet_dedup_scan [simp, intro!]: "quiet (dedup_scan e fid ks)"
proof (induction ks)
  case Nil
  show ?case by (simp add: quiet_def)
next
  case (Cons k ks)
  show ?case
    unfolding quiet_def
  proof
    fix w
    obtain r w1 where g: "db_getWithMetadata e k w = (r, w1)" by (cases "db_getWithMetadata e k w")
    from quietD [OF quiet_db_getWithMetadata g] obtain ops1
      where w1: "w1 = w\<lparr>trace := trace w @ ops1\<rparr>" and r1: "list_all is_read ops1" by blast
    obtain r2 w2 where d: "dedup_scan e fid ks w1 = (r2, w2)" by (cases "dedup_scan e fid ks w1")
    from quietD [OF Cons.IH d] obtain ops2
      where w2: "w2 = w1\<lparr>trace := trace w1 @ ops2\<rparr>" and r2: "list_all is_read ops2" by blast
    from g d w1 w2 r1 r2
    show "store (snd (dedup_scan e fid (k # ks) w)) = store w \<and>
          (\<exists>ops. trace (snd (dedup_scan e fid (k # ks) w)) = trace w @ ops \<and> list_all is_read ops)"
      by (cases r) auto
  qed
qed


lemma issuesD:
  assumes "issues P m" and "m w = (r, w')"
  obtains ops where "trace w' = trace w @ ops" and "list_all P ops"
  using assms unfolding issues_def by (metis snd_conv)

lemma issues_ret [simp, intro!]: "issues P (ret x)"
  by (simp add: issues_def ret_def)

lemma issues_raise [simp, intro!]: "issues P (raise er)"
  by (simp add: issues_def raise_def)

lemma issues_bnd [intro!]:
  assumes "issues P m" and "\<And>x. issues P (f x)"
  shows "issues P (bnd m f)"
  unfolding issues_def
proof
  fix w
  obtain r w1 where m: "m w = (r, w1)" by (cases "m w")
  from issuesD [OF assms(1) m] obtain ops1
    where w1: "trace w1 = trace w @ ops1" and r1: "list_all P ops1" by blast
  show "\<exists>ops. trace (snd (bnd m f w)) = trace w @ ops \<and> list_all P ops"
  proof (cases r)
    case (Inl er)
    with m w1 r1 show ?thesis by (auto simp: bnd_def)
  next
    case (Inr x)
    obtain r2 w2 where f: "f x w1 = (r2, w2)" by (cases "f x w1")
    from issuesD [OF assms(2) f] obtain ops2
      where w2: "trace w2 = trace w1 @ ops2" and r2: "list_all P ops2" by blast
    from Inr m f have "bnd m f w = (r2, w2)" by (simp add: bnd_def)
    with w1 w2 r1 r2 show ?thesis by auto
  qed
qed

lemma issues_catch [intro!]:
  assumes "issues P m" and "\<And>er. issues P (h er)"
  shows "issues P (catch m h)"
  unfolding issues_def
proof
  fix w
  obtain r w1 where m: "m w = (r, w1)" by (cases "m w")
  from issuesD [OF assms(1) m] obtain ops1
    where w1: "trace w1 = trace w @ ops1" and r1: "list_all P ops1" by blast
  show "\<exists>ops. trace (snd (catch m h w)) = trace w @ ops \<and> list_all P ops"
  proof (cases r)
    case (Inr x)
    with m w1 r1 show ?thesis by (auto simp: catch_def)
  next
    case (Inl er)
    obtain r2 w2 where f: "h er w1 = (r2, w2)" by (cases "h er w1")
    from issuesD [OF assms(2) f] obtain ops2
      where w2: "trace w2 = trace w1 @ ops2" and r2: "list_all P ops2" by blast
    from Inl m f have "catch m h w = (r2, w2)" by (simp add: catch_def)
    with w1 w2 r1 r2 show ?thesis by auto
  qed
qed

lemma issues_call: "P ef \<Longrightarrow> issues P (call e ef)"
  by (auto simp: issues_def call_def split: option.splits)

lemma issues_db_get [intro!]: "P (DbGet k) \<Longrightarrow> issues P (db_get e k)"
  by (auto simp: issues_def db_get_def bnd_def call_def split: option.splits)

lemma issues_db_list [intro!]: "P (DbList p) \<Longrightarrow> issues P (db_list e p)"
  by (auto simp: issues_def db_list_def bnd_def call_def split: option.splits)

lemma issues_db_getWithMetadata [intro!]:
  "P (DbGetWithMetadata k) \<Longrightarrow> issues P (db_getWithMetadata e k)"
  by (auto simp: issues_def db_getWithMetadata_def bnd_def call_def split: option.splits)

lemma issues_db_put [intro!]: "P (DbPut k v m t) \<Longrightarrow> issues P (db_put e k v m t)"
  by (auto simp: issues_def db_put_def bnd_def call_def split: option.splits)

lemma issues_db_delete [intro!]: "P (DbDelete k) \<Longrightarrow> issues P (db_delete e k)"
  by (auto simp: issues_def db_delete_def bnd_def call_def split: option.splits)

lemma issues_buildUniqueFileId [intro!]:
  "P (BuildUniqueFileId d n) \<Longrightarrow> issues P (buildUniqueFileId e d n)"
  by (auto simp: issues_def buildUniqueFileId_def bnd_def call_def split: option.splits)

lemma issues_endUpload [intro!]: "P (EndUpload f) \<Longrightarrow> issues P (endUpload e f md)"
  by (auto simp: issues_def endUpload_def call_def split: option.splits)

lemma issues_sendMessage [intro!]: "P (SendMessage c n) \<Longrightarrow> issues P (sendMessage e c n)"
  by (auto simp: issues_def sendMessage_def bnd_def ret_def call_def split: option.splits)

lemma issues_editMessageText [intro!]:
  "P (EditMessageText c i n) \<Longrightarrow> issues P (editMessageText e c i n)"
  by (auto simp: issues_def editMessageText_def call_def split: option.splits)

lemma issues_waitUntil [intro!]: "P (WaitUntil t) \<Longrightarrow> issues P (waitUntil t)"
  by (auto simp: issues_def waitUntil_def)

lemma issues_str_or [simp, intro!]: "issues P (str_or v d)"
  by (cases "(v, d)" rule: str_or.cases) auto

lemma issues_dedup_scan [intro!]:
  assumes "\<And>k. P (DbGetWithMetadata k)"
  shows "issues P (dedup_scan e fid ks)"
proof (induction ks)
  case Nil
  show ?case by (simp add: issues_def)
next
  case (Cons k ks)
  have g: "issues P (db_getWithMetadata e k)" using assms by blast
  show ?case
    unfolding issues_def
  proof
    fix w
    obtain r w1 where m: "db_getWithMetadata e k w = (r, w1)"
      by (cases "db_getWithMetadata e k w")
    from issuesD [OF g m] obtain ops1
      where w1: "trace w1 = trace w @ ops1" and r1: "list_all P ops1" by blast
    obtain r2 w2 where d: "dedup_scan e fid ks w1 = (r2, w2)" by (cases "dedup_scan e fid ks w1")
    from issuesD [OF Cons.IH d] obtain ops2
      where w2: "trace w2 = trace w1 @ ops2" and r2: "list_all P ops2" by blast
    from m d w1 w2 r1 r2
    show "\<exists>ops. trace (snd (dedup_scan e fid (k # ks) w)) = trace w @ ops \<and> list_all P ops"
      by (cases r) auto
  qed
qed

lemma build_metadata_fields [simp]:
  "TgFileId (build_metadata e m chatId fi config ch fullId) = fileId fi"
  "TgChatId (build_metadata e m chatId fi config ch fullId) = chatId"
  "FileName (build_metadata e m chatId fi config ch fullId) = fileName fi"
  "FileType (build_metadata e m chatId fi config ch fullId) = ''image/jpeg''"
  "FileSize (build_metadata e m chatId fi config ch fullId) = toFixed2_of_bytes (fileSize fi)"
  "Directory (build_metadata e m chatId fi config ch fullId) = actualDirectory fullId"
  "MediaGroupId (build_metadata e m chatId fi config ch fullId) = nonempty (media_group_id m)"
  by (simp_all add: build_metadata_def)

text \<open>Every effect \<open>process_file\<close> can issue has one of these shapes.\<close>

lemma issues_process_file:
  assumes "P (DbGet webhook_key)" and "P (DbGet upload_key)" and "P (DbGet (dir_key chatId))"
    and "\<And>g. nonempty (media_group_id m) = Some g \<Longrightarrow> P (DbGet (batch_key g))"
    and "\<And>p. P (DbList p)" and "\<And>k. P (DbGetWithMetadata k)"
    and "\<And>d. P (BuildUniqueFileId d (fileName fi))"
    and "\<And>config ch fullId.
           P (DbPut fullId (Str []) (Some (FileMeta (build_metadata e m chatId fi config ch fullId))) None)"
    and "\<And>g fullId. nonempty (media_group_id m) = Some g \<Longrightarrow>
           P (DbPut (batch_index_key g fullId) (Str fullId)
                (Some (IndexMeta (toFixed2_of_bytes (fileSize fi)))) (Some 3600))"
    and "\<And>fullId. P (EndUpload fullId)"
    and "\<And>g. nonempty (media_group_id m) = Some g \<Longrightarrow> P (SendMessage chatId ReceivingBatch)"
    and "\<And>g b. nonempty (media_group_id m) = Some g \<Longrightarrow>
           P (DbPut (batch_key g) (BatchJson b) None (Some 60))"
    and "\<And>g. nonempty (media_group_id m) = Some g \<Longrightarrow>
           P (WaitUntil \<lparr>task_group = g, task_chat = chatId\<rparr>)"
    and "\<And>fullId. nonempty (media_group_id m) = None \<Longrightarrow>
           P (SendMessage chatId (Saved fullId (toFixed2_of_bytes (fileSize fi))))"
  shows "issues P (process_file e m chatId fi)"
  unfolding process_file_def store_and_notify_def write_db_def batch_step_def batch_read_def
    batch_send_def batch_write_def single_reply_def getTelegramChannel_def
    read_webhook_config_def
  using assms
  by (auto intro!: issues_bnd issues_catch split: option.split sval.split)


lemma issues_handle_dir_command:
  assumes "P (DbGet webhook_key)" and "P (DbGet upload_key)" and "P (DbGet (dir_key chatId))"
    and "\<And>d. P (DbPut (dir_key chatId) (Str d) None None)"
    and "\<And>n. P (SendMessage chatId n)"
  shows "issues P (handle_dir_command e chatId parts)"
  unfolding handle_dir_command_def getTelegramChannel_def read_webhook_config_def
  using assms
  by (auto intro!: issues_bnd split: option.split sval.split)

lemma issues_carries:
  assumes "message upd = Some m" and "extract_file e m = Inr (Some fi)"
  shows "issues (carries (fileId fi) (toFixed2_of_bytes (fileSize fi))) (handleTelegramMessage e upd)"
proof (cases "is_dir_command m")
  case True
  then show ?thesis
    using assms(1)
    by (auto simp: handleTelegramMessage_def intro!: issues_handle_dir_command split: option.split)
next
  case False
  have "issues (carries (fileId fi) (toFixed2_of_bytes (fileSize fi)))
          (process_file e m (toString (chat_id m)) fi)"
    by (rule issues_process_file) simp_all
  with False assms show ?thesis by (simp add: handleTelegramMessage_def)
qed

section \<open>The file chosen from a photo message\<close>

lemma greater_None [simp]: "greater x None = False"
  by (cases x) simp_all

lemma foldl_larger_last_maximal:
  fixes sz :: "'a \<Rightarrow> nat option"
  defines "f \<equiv> (\<lambda>prev current. if greater (sz prev) (sz current) then prev else current)"
  assumes sized: "\<forall>y\<in>set (x # xs). sz y \<noteq> None"
  shows "\<exists>before after a. x # xs = before @ foldl f x xs # after
           \<and> sz (foldl f x xs) = Some a
           \<and> (\<forall>y\<in>set before. \<exists>b. sz y = Some b \<and> b \<le> a)
           \<and> (\<forall>y\<in>set after. \<exists>b. sz y = Some b \<and> b < a)"
  using sized
proof (induction xs rule: rev_induct)
  case Nil
  then obtain a where "sz x = Some a" by auto
  then show ?case by (intro exI [of _ "[]"] exI [of _ a]) simp
next
  case (snoc y ys)
  let ?r = "foldl f x ys"
  from snoc.prems have "\<forall>z\<in>set (x # ys). sz z \<noteq> None" by simp
  from snoc.IH [OF this] obtain before after a where split: "x # ys = before @ ?r # after"
    and r: "sz ?r = Some a"
    and le: "\<forall>z\<in>set before. \<exists>b. sz z = Some b \<and> b \<le> a"
    and less: "\<forall>z\<in>set after. \<exists>b. sz z = Some b \<and> b < a" by blast
  from snoc.prems obtain c where y: "sz y = Some c" by auto
  show ?case
  proof (cases "a > c")
    case True
    with r y have res: "foldl f x (ys @ [y]) = ?r" by (simp add: f_def)
    from split have "x # ys @ [y] = before @ ?r # (after @ [y])" by simp
    moreover from less y True have "\<forall>z\<in>set (after @ [y]). \<exists>b. sz z = Some b \<and> b < a"
      by auto
    ultimately show ?thesis unfolding res using r le by blast
  next
    case False
    with r y have res: "foldl f x (ys @ [y]) = y" by (simp add: f_def)
    have "x # ys @ [y] = (x # ys) @ y # []" by simp
    moreover have "\<forall>z\<in>set (x # ys). \<exists>b. sz z = Some b \<and> b \<le> c"
    proof
      fix z assume "z \<in> set (x # ys)"
      then have "z \<in> set before \<or> z = ?r \<or> z \<in> set after" unfolding split by auto
      with le less r False show "\<exists>b. sz z = Some b \<and> b \<le> c" by fastforce
    qed
    moreover have "\<forall>z\<in>set []. \<exists>b. sz z = Some b \<and> b < c" by simp
    ultimately show ?thesis unfolding res using y by blast
  qed
qed

lemma foldl_unsized_last:
  fixes sz :: "'a \<Rightarrow> nat option"
  defines "f \<equiv> (\<lambda>prev current. if greater (sz prev) (sz current) then prev else current)"
  assumes "sz (last (x # xs)) = None"
  shows "foldl f x xs = last (x # xs)"
proof (cases xs rule: rev_cases)
  case Nil
  then show ?thesis by simp
next
  case (snoc ys y)
  with assms(2) have "sz y = None" by simp
  then show ?thesis unfolding snoc by (simp add: f_def)
qed

lemma foldl_restart:
  fixes sz :: "'a \<Rightarrow> nat option"
  defines "f \<equiv> (\<lambda>prev current. if greater (sz prev) (sz current) then prev else current)"
  assumes "sz (last (x # xs)) = None"
  shows "foldl f x (xs @ s # ss) = foldl f s ss"
proof -
  have "foldl f x xs = last (x # xs)"
    unfolding f_def using assms(2) by (rule foldl_unsized_last)
  then have "f (foldl f x xs) s = s" using assms(2) by (simp add: f_def)
  then show ?thesis by simp
qed

lemma largestPhoto_selection:
  assumes ne: "pre @ suf \<noteq> []"
    and sized: "list_all (\<lambda>p. p_file_size p \<noteq> None) suf"
    and cut: "pre = [] \<or> p_file_size (last pre) = None"
  shows "\<exists>lp. largestPhoto (pre @ suf) = Inr lp
           \<and> (suf = [] \<longrightarrow> lp = last pre)
           \<and> (suf \<noteq> [] \<longrightarrow>
                (\<exists>before after a. suf = before @ lp # after \<and> p_file_size lp = Some a
                   \<and> (\<forall>p\<in>set before. \<exists>b. p_file_size p = Some b \<and> b \<le> a)
                   \<and> (\<forall>p\<in>set after. \<exists>b. p_file_size p = Some b \<and> b < a)))"
proof (cases suf)
  case Nil
  with ne obtain x xs where pre: "pre = x # xs" by (cases pre) auto
  with cut have "p_file_size (last (x # xs)) = None" by simp
  from foldl_unsized_last [of p_file_size x xs, OF this] show ?thesis
    unfolding Nil pre largestPhoto_def by simp
next
  case (Cons s ss)
  from sized have all: "\<forall>y\<in>set (s # ss). p_file_size y \<noteq> None"
    unfolding Cons by (simp add: list_all_iff)
  have "largestPhoto (pre @ suf)
          = Inr (foldl (\<lambda>prev current. if greater (p_file_size prev) (p_file_size current)
                                        then prev else current) s ss)"
  proof (cases pre)
    case Nil
    then show ?thesis unfolding Cons largestPhoto_def by simp
  next
    case (Cons x xs)
    with cut have "p_file_size (last (x # xs)) = None" by simp
    from foldl_restart [of p_file_size x xs s ss, OF this] show ?thesis
      unfolding \<open>suf = s # ss\<close> Cons largestPhoto_def by simp
  qed
  with foldl_larger_last_maximal [of s ss p_file_size, OF all] show ?thesis
    unfolding Cons by auto
qed

text \<open>Every photo array splits after its last element without \<open>file_size\<close>.\<close>

lemma unsized_split:
  "\<exists>pre suf. ps = pre @ suf \<and> list_all (\<lambda>p. p_file_size p \<noteq> None) suf
      \<and> (pre = [] \<or> p_file_size (last pre) = None)"
proof (induction ps rule: rev_induct)
  case Nil
  show ?case by simp
next
  case (snoc y ys)
  show ?case
  proof (cases "p_file_size y")
    case None
    then have "ys @ [y] = (ys @ [y]) @ [] \<and> list_all (\<lambda>p. p_file_size p \<noteq> None) []
        \<and> (ys @ [y] = [] \<or> p_file_size (last (ys @ [y])) = None)" by simp
    then show ?thesis by blast
  next
    case (Some a)
    from snoc obtain pre suf where "ys = pre @ suf"
      and "list_all (\<lambda>p. p_file_size p \<noteq> None) suf"
      and "pre = [] \<or> p_file_size (last pre) = None" by blast
    with Some have "ys @ [y] = pre @ (suf @ [y])
        \<and> list_all (\<lambda>p. p_file_size p \<noteq> None) (suf @ [y])
        \<and> (pre = [] \<or> p_file_size (last pre) = None)" by simp
    then show ?thesis by blast
  qed
qed

text \<open>
  Claim C10, as amended. For a message with a non-empty photo array, the file the
  handler works with is the element the \<open>reduce\<close> of line 77 returns. Split the array
  after its last element without \<open>file_size\<close> (the first part is empty when every
  element carries one). When nothing follows that element, it is the one chosen.
  Otherwise the chosen element is, among the elements that follow, one of maximal
  \<open>file_size\<close>, the last of those: none before it is larger and every one after it is
  smaller. So when every element carries a \<open>file_size\<close>, the choice is the last element
  of maximal size of the whole array. The identifier and size of the chosen element are
  the ones of the extracted file, which is what the deduplication scan compares and the
  rest of the handler receives, and every store write of the handler that carries a
  file identifier or a size carries these.
\<close>

theorem photo_file_selection:
  assumes "message upd = Some m" and "photo m = Some (pre @ suf)" and "pre @ suf \<noteq> []"
    and "list_all (\<lambda>p. p_file_size p \<noteq> None) suf"
    and "pre = [] \<or> p_file_size (last pre) = None"
  shows "\<exists>lp fi.
           (suf = [] \<longrightarrow> lp = last pre)
         \<and> (suf \<noteq> [] \<longrightarrow>
              (\<exists>before after a. suf = before @ lp # after \<and> p_file_size lp = Some a
                 \<and> (\<forall>p\<in>set before. \<exists>b. p_file_size p = Some b \<and> b \<le> a)
                 \<and> (\<forall>p\<in>set after. \<exists>b. p_file_size p = Some b \<and> b < a)))
         \<and> extract_file e m = Inr (Some fi)
         \<and> fileId fi = p_file_id lp \<and> fileSize fi = p_file_size lp
         \<and> (\<not> is_dir_command m \<longrightarrow>
              handleTelegramMessage e upd = process_file e m (toString (chat_id m)) fi)
         \<and> (\<forall>w. \<exists>ops. trace (snd (handleTelegramMessage e upd w)) = trace w @ ops
                \<and> list_all (carries (p_file_id lp) (toFixed2_of_bytes (p_file_size lp))) ops)"
proof -
  from largestPhoto_selection [OF assms(3,4,5)] obtain lp
    where lp: "largestPhoto (pre @ suf) = Inr lp"
      and unsized: "suf = [] \<longrightarrow> lp = last pre"
      and largest: "suf \<noteq> [] \<longrightarrow>
              (\<exists>before after a. suf = before @ lp # after \<and> p_file_size lp = Some a
                 \<and> (\<forall>p\<in>set before. \<exists>b. p_file_size p = Some b \<and> b \<le> a)
                 \<and> (\<forall>p\<in>set after. \<exists>b. p_file_size p = Some b \<and> b < a))" by blast
  define fi where "fi = \<lparr>fileId = p_file_id lp, fileSize = p_file_size lp,
      fileName = ''photo_'' @ iso_date e @ ''_'' @ show_nat (now_name e) @ ''.jpg'',
      fileType = ''image/jpeg''\<rparr>"
  have ex: "extract_file e m = Inr (Some fi)"
    using assms(2) lp by (simp add: extract_file_def fi_def)
  have sel: "fileId fi = p_file_id lp" "fileSize fi = p_file_size lp" by (simp_all add: fi_def)
  have h: "\<not> is_dir_command m \<longrightarrow>
             handleTelegramMessage e upd = process_file e m (toString (chat_id m)) fi"
    using assms(1) ex by (simp add: handleTelegramMessage_def)
  from issues_carries [OF assms(1) ex]
  have "\<forall>w. \<exists>ops. trace (snd (handleTelegramMessage e upd w)) = trace w @ ops
          \<and> list_all (carries (p_file_id lp) (toFixed2_of_bytes (p_file_size lp))) ops"
    by (simp add: sel issues_def)
  with unsized largest ex sel h show ?thesis by blast
qed

theorem photo_file_selection_witness:
  "(\<exists>lp fi.
      (\<exists>before after a. example_photos = before @ lp # after \<and> p_file_size lp = Some a
         \<and> (\<forall>p\<in>set before. \<exists>b. p_file_size p = Some b \<and> b \<le> a)
         \<and> (\<forall>p\<in>set after. \<exists>b. p_file_size p = Some b \<and> b < a))
    \<and> extract_file example_env example_photo_message = Inr (Some fi)
    \<and> fileId fi = p_file_id lp \<and> fileSize fi = p_file_size lp
    \<and> (\<forall>w. \<exists>ops.
          trace (snd (handleTelegramMessage example_env
                        \<lparr>message = Some example_photo_message\<rparr> w)) = trace w @ ops
        \<and> list_all (carries (p_file_id lp) (toFixed2_of_bytes (p_file_size lp))) ops))
   \<and> largestPhoto example_photos = Inr \<lparr>p_file_id = ''large2'', p_file_size = Some 20\<rparr>"
proof -
  have 1: "message \<lparr>message = Some example_photo_message\<rparr> = Some example_photo_message"
    by simp
  have 2: "photo example_photo_message = Some ([] @ example_photos)"
    by (simp add: example_photo_message_def)
  have 3: "[] @ example_photos \<noteq> []"
    by (simp add: example_photos_def)
  have 4: "list_all (\<lambda>p. p_file_size p \<noteq> None) example_photos"
    by (simp add: example_photos_def)
  have 5: "largestPhoto example_photos = Inr \<lparr>p_file_id = ''large2'', p_file_size = Some 20\<rparr>"
    by (simp add: example_photos_def largestPhoto_def)
  have 6: "example_photos \<noteq> []" using 3 by simp
  have 7: "[] = [] \<or> p_file_size (last []) = None" by simp
  from photo_file_selection [OF 1 2 3 4 7, of example_env] 6 obtain lp fi where
      "\<exists>before after a. example_photos = before @ lp # after \<and> p_file_size lp = Some a
            \<and> (\<forall>p\<in>set before. \<exists>b. p_file_size p = Some b \<and> b \<le> a)
            \<and> (\<forall>p\<in>set after. \<exists>b. p_file_size p = Some b \<and> b < a)"
    and "extract_file example_env example_photo_message = Inr (Some fi)"
    and "fileId fi = p_file_id lp" and "fileSize fi = p_file_size lp"
    and "\<forall>w. \<exists>ops.
          trace (snd (handleTelegramMessage example_env
                        \<lparr>message = Some example_photo_message\<rparr> w)) = trace w @ ops
        \<and> list_all (carries (p_file_id lp) (toFixed2_of_bytes (p_file_size lp))) ops"
    by blast
  with 5 show ?thesis by blast
qed

section \<open>The handler up to the store write\<close>

lemma bnd_quiet_cases:
  assumes "bnd m f w = (r, w')" and "quiet m"
  obtains (fail) ops er where "w' = w\<lparr>trace := trace w @ ops\<rparr>" and "list_all is_read ops"
      and "r = Inl er"
    | (continue) ops x where "list_all is_read ops"
      and "m w = (Inr x, w\<lparr>trace := trace w @ ops\<rparr>)"
      and "f x (w\<lparr>trace := trace w @ ops\<rparr>) = (r, w')"
proof -
  obtain r1 w1 where m: "m w = (r1, w1)" by (cases "m w")
  from quietD [OF assms(2) m] obtain ops
    where w1: "w1 = w\<lparr>trace := trace w @ ops\<rparr>" and rd: "list_all is_read ops" by blast
  show thesis
  proof (cases r1)
    case (Inl er)
    with assms(1) m have "r = Inl er" "w' = w1" by (simp_all add: bnd_def)
    with w1 rd show thesis using fail by blast
  next
    case (Inr x)
    with assms(1) m have "f x w1 = (r, w')" by (simp add: bnd_def)
    with m Inr w1 rd show thesis using continue by blast
  qed
qed

lemma buildUniqueFileId_run:
  "buildUniqueFileId e d n w =
     (case fails e (BuildUniqueFileId d n) of
        Some msg \<Rightarrow> (Inl (Thrown msg), w\<lparr>trace := trace w @ [BuildUniqueFileId d n]\<rparr>)
      | None \<Rightarrow> (Inr (allocated e (store w) d n), w\<lparr>trace := trace w @ [BuildUniqueFileId d n]\<rparr>))"
  by (simp add: buildUniqueFileId_def bnd_def call_def split: option.split)

lemma call_run:
  "call e ef w =
     (case fails e ef of
        Some msg \<Rightarrow> (Inl (Thrown msg), w\<lparr>trace := trace w @ [ef]\<rparr>)
      | None \<Rightarrow> (Inr (), w\<lparr>trace := trace w @ [ef]\<rparr>))"
  by (simp add: call_def)

lemma db_get_run:
  "db_get e k w =
     (case fails e (DbGet k) of
        Some msg \<Rightarrow> (Inl (Thrown msg), w\<lparr>trace := trace w @ [DbGet k]\<rparr>)
      | None \<Rightarrow> (Inr (kv_get (store w) k), w\<lparr>trace := trace w @ [DbGet k]\<rparr>))"
  by (simp add: db_get_def bnd_def call_def split: option.split)

lemma db_list_run:
  "db_list e p w =
     (case fails e (DbList p) of
        Some msg \<Rightarrow> (Inl (Thrown msg), w\<lparr>trace := trace w @ [DbList p]\<rparr>)
      | None \<Rightarrow> (Inr (kv_list (store w) p), w\<lparr>trace := trace w @ [DbList p]\<rparr>))"
  by (simp add: db_list_def bnd_def call_def split: option.split)

lemma db_getWithMetadata_run:
  "db_getWithMetadata e k w =
     (case fails e (DbGetWithMetadata k) of
        Some msg \<Rightarrow> (Inl (Thrown msg), w\<lparr>trace := trace w @ [DbGetWithMetadata k]\<rparr>)
      | None \<Rightarrow> (Inr (kv_getWithMetadata (store w) k),
                 w\<lparr>trace := trace w @ [DbGetWithMetadata k]\<rparr>))"
  by (simp add: db_getWithMetadata_def bnd_def call_def split: option.split)

lemma db_put_run:
  "db_put e k v m t w =
     (case fails e (DbPut k v m t) of
        Some msg \<Rightarrow> (Inl (Thrown msg), w\<lparr>trace := trace w @ [DbPut k v m t]\<rparr>)
      | None \<Rightarrow> (Inr (), w\<lparr>store := kv_put (store w) k \<lparr>val = v, meta = m, expirationTtl = t\<rparr>,
                           trace := trace w @ [DbPut k v m t]\<rparr>))"
  by (simp add: db_put_def bnd_def call_def split: option.split)

lemma db_delete_run:
  "db_delete e k w =
     (case fails e (DbDelete k) of
        Some msg \<Rightarrow> (Inl (Thrown msg), w\<lparr>trace := trace w @ [DbDelete k]\<rparr>)
      | None \<Rightarrow> (Inr (), w\<lparr>store := kv_delete (store w) k, trace := trace w @ [DbDelete k]\<rparr>))"
  by (simp add: db_delete_def bnd_def call_def split: option.split)

lemma endUpload_run:
  "endUpload e fullId md w =
     (case fails e (EndUpload fullId) of
        Some msg \<Rightarrow> (Inl (Thrown msg), w\<lparr>store := indexed e (store w) fullId md,
                                         trace := trace w @ [EndUpload fullId]\<rparr>)
      | None \<Rightarrow> (Inr (), w\<lparr>store := indexed e (store w) fullId md,
                           trace := trace w @ [EndUpload fullId]\<rparr>))"
  by (simp add: endUpload_def call_def split: option.split)

lemma sendMessage_run:
  "sendMessage e c n w =
     (case fails e (SendMessage c n) of
        Some msg \<Rightarrow> (Inl (Thrown msg), w\<lparr>trace := trace w @ [SendMessage c n]\<rparr>)
      | None \<Rightarrow> (Inr (replies e c n), w\<lparr>trace := trace w @ [SendMessage c n]\<rparr>))"
  by (simp add: sendMessage_def bnd_def ret_def call_def split: option.split)

lemma editMessageText_run:
  "editMessageText e c i n w =
     (case fails e (EditMessageText c i n) of
        Some msg \<Rightarrow> (Inl (Thrown msg), w\<lparr>trace := trace w @ [EditMessageText c i n]\<rparr>)
      | None \<Rightarrow> (Inr (), w\<lparr>trace := trace w @ [EditMessageText c i n]\<rparr>))"
  by (simp add: editMessageText_def call_def)

lemmas run_simps = bnd_def ret_def raise_def catch_def db_get_run db_list_run
  db_getWithMetadata_run db_put_run db_delete_run buildUniqueFileId_run endUpload_run
  sendMessage_run editMessageText_run waitUntil_def

lemma dedup_scan_none:
  "dedup_scan e fid ks w = (Inr None, w') \<Longrightarrow>
     \<not> list_ex (\<lambda>k. meta_TgFileId (snd (kv_getWithMetadata (store w) k)) = Some fid) ks"
proof (induction ks arbitrary: w)
  case Nil
  show ?case by simp
next
  case (Cons k ks)
  from Cons.prems have nf: "fails e (DbGetWithMetadata k) = None"
    by (auto simp: db_getWithMetadata_run split: option.splits)
  with Cons.prems
  have nm: "meta_TgFileId (snd (kv_getWithMetadata (store w) k)) \<noteq> Some fid"
    and rest: "dedup_scan e fid ks (w\<lparr>trace := trace w @ [DbGetWithMetadata k]\<rparr>) = (Inr None, w')"
    by (auto simp: db_getWithMetadata_run split: if_splits)
  from Cons.IH [OF rest] nm show ?case by simp
qed

lemma dedup_scan_fetches:
  "dedup_scan e fid ks w = (Inr None, w') \<Longrightarrow> trace w' = trace w @ map DbGetWithMetadata ks"
proof (induction ks arbitrary: w)
  case Nil
  then show ?case by simp
next
  case (Cons k ks)
  from Cons.prems have nf: "fails e (DbGetWithMetadata k) = None"
    by (auto simp: db_getWithMetadata_run split: option.splits)
  with Cons.prems
  have rest: "dedup_scan e fid ks (w\<lparr>trace := trace w @ [DbGetWithMetadata k]\<rparr>) = (Inr None, w')"
    by (auto simp: db_getWithMetadata_run split: if_splits)
  from Cons.IH [OF rest] show ?case by simp
qed

lemma no_batch_read:
  assumes "issues (\<lambda>ef. \<not> is_batch_read ef) m" and "m w = (r, w\<lparr>trace := trace w @ ops\<rparr>)"
  shows "filter is_batch_read ops = []"
proof -
  from issuesD [OF assms] obtain ops' where "trace (w\<lparr>trace := trace w @ ops\<rparr>) = trace w @ ops'"
    and "list_all (\<lambda>ef. \<not> is_batch_read ef) ops'" by blast
  then show ?thesis by (simp add: list_all_iff filter_empty_conv)
qed

lemma no_batch_read_steps:
  "issues (\<lambda>ef. \<not> is_batch_read ef) (read_webhook_config e)"
  "issues (\<lambda>ef. \<not> is_batch_read ef) (db_list e p)"
  "issues (\<lambda>ef. \<not> is_batch_read ef) (db_get e (dir_key chatId))"
  "issues (\<lambda>ef. \<not> is_batch_read ef) (getTelegramChannel e n)"
  unfolding read_webhook_config_def getTelegramChannel_def
  by (auto intro!: issues_bnd split: option.split sval.split
      simp: is_batch_key_def startsWith_def webhook_key_def upload_key_def dir_key_def)

lemma process_file_cases:
  assumes run: "process_file e m chatId fi w = (r, w')"
  obtains (early) ops where "w' = w\<lparr>trace := trace w @ ops\<rparr>" and "list_all is_read ops"
      and "refusal r"
    | (no_key) ops d er where
        "w' = w\<lparr>trace := trace w @ ops @ [BuildUniqueFileId d (fileName fi)]\<rparr>"
      and "list_all is_read ops" and "r = Inl er"
      and "\<not> stored_duplicate (store w) (fileId fi)"
    | (stored) ops d config ch fullId where "list_all is_read ops"
      and "\<not> stored_duplicate (store w) (fileId fi)"
      and "store_and_notify e chatId fullId (build_metadata e m chatId fi config ch fullId)
             (media_group_id m)
             (w\<lparr>trace := trace w @ ops @ [BuildUniqueFileId d (fileName fi)]\<rparr>) = (r, w')"
      and "filter is_batch_read ops
             = map DbGetWithMetadata (filter is_batch_key (kv_list (store w) []))"
proof -
  from run [unfolded process_file_def] quiet_read_webhook_config show thesis
  proof (cases rule: bnd_quiet_cases)
    case (fail ops er)
    then show thesis using early by (simp add: refusal_def)
  next
    case c1: (continue ops1 cfg)
    show thesis
    proof (cases cfg)
      case None
      with c1 show thesis using early [of ops1] by (auto simp: ret_def refusal_def failure_def)
    next
      case (Some config)
      show thesis
      proof (cases "\<not> enabled config \<or> \<not> truthy_str (targetChannel config)")
        case True
        with c1 Some show thesis using early [of ops1]
          by (auto simp: ret_def refusal_def failure_def)
      next
        case False
        with c1 Some have "bnd (db_list e []) (\<lambda>existingFiles.
               bnd (dedup_scan e (fileId fi) existingFiles) (\<lambda>dup.
                 case dup of
                   Some k \<Rightarrow>
                     ret [(''success'', JBool False), (''reason'', JStr ''already_saved''),
                          (''existingFileId'', JStr k)]
                 | None \<Rightarrow>
                     bnd (db_get e (dir_key chatId)) (\<lambda>v.
                       bnd (str_or v []) (\<lambda>uploadDir.
                         bnd (getTelegramChannel e (targetChannel config)) (\<lambda>channel.
                           case channel of
                             None \<Rightarrow> ret (failure ''channel_not_found'')
                           | Some ch \<Rightarrow>
                               bnd (buildUniqueFileId e uploadDir (fileName fi)) (\<lambda>fullId.
                                 store_and_notify e chatId fullId
                                   (build_metadata e m chatId fi config ch fullId)
                                   (media_group_id m)))))))
             (w\<lparr>trace := trace w @ ops1\<rparr>) = (r, w')" by simp
        from this quiet_db_list show thesis
        proof (cases rule: bnd_quiet_cases)
          case (fail ops er)
          with c1 show thesis using early [of "ops1 @ ops"] by (simp add: refusal_def)
        next
          case c2: (continue ops2 keys)
          from c2(3) quiet_dedup_scan show thesis
          proof (cases rule: bnd_quiet_cases)
            case (fail ops er)
            with c1 c2 show thesis using early [of "ops1 @ ops2 @ ops"] by (simp add: refusal_def)
          next
            case c3: (continue ops3 dup)
            show thesis
            proof (cases dup)
              case (Some k)
              with c1 c2 c3 show thesis using early [of "ops1 @ ops2 @ ops3"]
                by (auto simp: ret_def refusal_def)
            next
              case None
              note dup_none = None
              from c2(2) have keys: "keys = kv_list (store w) []"
                by (auto simp: db_list_run split: option.splits)
              from c3(2) None have nodup: "\<not> stored_duplicate (store w) (fileId fi)"
                using dedup_scan_none [of e "fileId fi" keys "w\<lparr>trace := trace w @ ops1 @ ops2\<rparr>"] keys
                by (simp add: stored_duplicate_def)
              from None c3 have "bnd (db_get e (dir_key chatId)) (\<lambda>v.
                       bnd (str_or v []) (\<lambda>uploadDir.
                         bnd (getTelegramChannel e (targetChannel config)) (\<lambda>channel.
                           case channel of
                             None \<Rightarrow> ret (failure ''channel_not_found'')
                           | Some ch \<Rightarrow>
                               bnd (buildUniqueFileId e uploadDir (fileName fi)) (\<lambda>fullId.
                                 store_and_notify e chatId fullId
                                   (build_metadata e m chatId fi config ch fullId)
                                   (media_group_id m)))))
                  (w\<lparr>trace := trace w @ ops1 @ ops2 @ ops3\<rparr>) = (r, w')" by simp
              from this quiet_db_get show thesis
              proof (cases rule: bnd_quiet_cases)
                case (fail ops er)
                with c1 c2 c3 show thesis using early [of "ops1 @ ops2 @ ops3 @ ops"]
                  by (simp add: refusal_def)
              next
                case c4: (continue ops4 v)
                from c4(3) quiet_str_or show thesis
                proof (cases rule: bnd_quiet_cases)
                  case (fail ops er)
                  with c1 c2 c3 c4 show thesis
                    using early [of "ops1 @ ops2 @ ops3 @ ops4 @ ops"] by (simp add: refusal_def)
                next
                  case c5: (continue ops5 uploadDir)
                  from c5(3) quiet_getTelegramChannel show thesis
                  proof (cases rule: bnd_quiet_cases)
                    case (fail ops er)
                    with c1 c2 c3 c4 c5 show thesis
                      using early [of "ops1 @ ops2 @ ops3 @ ops4 @ ops5 @ ops"]
                      by (simp add: refusal_def)
                  next
                    case c6: (continue ops6 channel)
                    let ?ops = "ops1 @ ops2 @ ops3 @ ops4 @ ops5 @ ops6"
                    have rd: "list_all is_read ?ops"
                      using c1 c2 c3 c4 c5 c6 by simp
                    have scan: "filter is_batch_read ?ops
                        = map DbGetWithMetadata (filter is_batch_key (kv_list (store w) []))"
                    proof -
                      have "filter is_batch_read ops1 = []"
                        by (rule no_batch_read [OF no_batch_read_steps(1) c1(2)])
                      moreover have "filter is_batch_read ops2 = []"
                        by (rule no_batch_read [OF no_batch_read_steps(2) c2(2)])
                      moreover from dedup_scan_fetches [OF c3(2) [unfolded dup_none]]
                      have "ops3 = map DbGetWithMetadata keys" by simp
                      moreover have "filter is_batch_read ops4 = []"
                        by (rule no_batch_read [OF no_batch_read_steps(3) c4(2)])
                      moreover have "filter is_batch_read ops5 = []"
                        by (rule no_batch_read [OF issues_str_or c5(2)])
                      moreover have "filter is_batch_read ops6 = []"
                        by (rule no_batch_read [OF no_batch_read_steps(4) c6(2)])
                      ultimately show ?thesis
                        by (simp add: keys filter_map comp_def)
                    qed
                    show thesis
                    proof (cases channel)
                      case None
                      with c6 rd show thesis using early [of ?ops]
                        by (auto simp: ret_def refusal_def failure_def)
                    next
                      case (Some ch)
                      show thesis
                      proof (cases "fails e (BuildUniqueFileId uploadDir (fileName fi))")
                        case (Some msg)
                        with c6 \<open>channel = Some ch\<close> rd nodup show thesis
                          using no_key [of ?ops uploadDir]
                          by (auto simp: bnd_def buildUniqueFileId_run)
                      next
                        case None
                        with c6 \<open>channel = Some ch\<close> rd nodup scan show thesis
                          using stored [of ?ops]
                          by (auto simp: bnd_def buildUniqueFileId_run)
                      qed
                    qed
                  qed
                qed
              qed
            qed
          qed
        qed
      qed
    qed
  qed
qed

section \<open>Duplicates\<close>

lemma handle_file_event:
  assumes "message upd = Some m" and "\<not> is_dir_command m"
    and "extract_file e m = Inr (Some fi)"
  shows "handleTelegramMessage e upd = process_file e m (toString (chat_id m)) fi"
  using assms by (simp add: handleTelegramMessage_def)

lemma process_file_duplicate_quiet:
  assumes "stored_duplicate (store w) (fileId fi)"
    and "process_file e m chatId fi w = (r, w')"
  shows "store w' = store w \<and> (\<exists>ops. trace w' = trace w @ ops \<and> list_all is_read ops)"
  using assms(2)
proof (cases rule: process_file_cases)
  case (early ops)
  then show ?thesis by simp
next
  case (no_key ops d er)
  with assms(1) show ?thesis by simp
next
  case (stored ops d config ch fullId)
  with assms(1) show ?thesis by simp
qed

lemma dedup_scan_finds:
  assumes "\<And>k. fails e (DbGetWithMetadata k) = None"
    and "list_ex (\<lambda>k. meta_TgFileId (snd (kv_getWithMetadata (store w) k)) = Some fid) ks"
  shows "\<exists>k w'. dedup_scan e fid ks w = (Inr (Some k), w')
           \<and> meta_TgFileId (snd (kv_getWithMetadata (store w) k)) = Some fid"
  using assms(2)
proof (induction ks arbitrary: w)
  case Nil
  then show ?case by simp
next
  case (Cons k ks)
  show ?case
  proof (cases "meta_TgFileId (snd (kv_getWithMetadata (store w) k)) = Some fid")
    case True
    then show ?thesis by (simp add: db_getWithMetadata_run assms(1))
  next
    case False
    with Cons.prems
    have "list_ex (\<lambda>j. meta_TgFileId
            (snd (kv_getWithMetadata (store (w\<lparr>trace := trace w @ [DbGetWithMetadata k]\<rparr>)) j))
              = Some fid) ks" by simp
    from Cons.IH [OF this] False show ?thesis
      by (simp add: db_getWithMetadata_run assms(1))
  qed
qed

lemma read_webhook_config_present:
  assumes "fails e (DbGet webhook_key) = None"
    and "kv_get (store w) webhook_key = Some (WebhookJson config)"
  shows "read_webhook_config e w = (Inr (Some config), w\<lparr>trace := trace w @ [DbGet webhook_key]\<rparr>)"
  using assms by (simp add: read_webhook_config_def run_simps)

lemma process_file_already_saved:
  assumes dup: "stored_duplicate (store w) (fileId fi)"
    and cfg: "kv_get (store w) webhook_key = Some (WebhookJson config)"
    and en: "enabled config" "truthy_str (targetChannel config)"
    and ok: "\<And>ef. is_read ef \<Longrightarrow> fails e ef = None"
  shows "\<exists>k. fst (process_file e m chatId fi w)
               = Inr [(''success'', JBool False), (''reason'', JStr ''already_saved''),
                      (''existingFileId'', JStr k)]
           \<and> meta_TgFileId (snd (kv_getWithMetadata (store w) k)) = Some (fileId fi)"
proof -
  let ?w1 = "w\<lparr>trace := trace w @ [DbGet webhook_key]\<rparr>"
  let ?w2 = "w\<lparr>trace := trace w @ [DbGet webhook_key, DbList []]\<rparr>"
  have 1: "read_webhook_config e w = (Inr (Some config), ?w1)"
    using cfg ok by (simp add: read_webhook_config_present)
  have 2: "db_list e [] ?w1 = (Inr (kv_list (store w) []), ?w2)"
    using ok by (simp add: db_list_run)
  from dup have "list_ex (\<lambda>k. meta_TgFileId (snd (kv_getWithMetadata (store ?w2) k))
                    = Some (fileId fi)) (kv_list (store w) [])"
    by (simp add: stored_duplicate_def)
  from dedup_scan_finds [of e ?w2, OF _ this] ok obtain k w3
    where 3: "dedup_scan e (fileId fi) (kv_list (store w) []) ?w2 = (Inr (Some k), w3)"
      and k: "meta_TgFileId (snd (kv_getWithMetadata (store w) k)) = Some (fileId fi)"
    by auto
  have "fst (process_file e m chatId fi w)
          = Inr [(''success'', JBool False), (''reason'', JStr ''already_saved''),
                 (''existingFileId'', JStr k)]"
    using 1 2 3 en by (simp add: process_file_def bnd_def ret_def)
  with k show ?thesis by blast
qed

text \<open>
  Claim C2, as amended. For every file event whose origin file identifier is the
  \<open>TgFileId\<close> in the metadata of a stored entry, the handler leaves the store as it
  was and issues only reads: no call of \<open>buildUniqueFileId\<close>, no store write, no
  notification. When furthermore the webhook configuration is present, enabled and
  names a target channel, and no read fails, the handler returns
  \<open>{success: false, reason: 'already_saved', existingFileId}\<close>, naming a stored entry
  with that identifier.
\<close>

theorem duplicate_is_refused_before_allocation:
  assumes "message upd = Some m" and "\<not> is_dir_command m"
    and "extract_file e m = Inr (Some fi)"
    and "stored_duplicate (store w) (fileId fi)"
  shows "store (snd (handleTelegramMessage e upd w)) = store w
       \<and> (\<exists>ops. trace (snd (handleTelegramMessage e upd w)) = trace w @ ops
                \<and> list_all is_read ops)
       \<and> (kv_get (store w) webhook_key = Some (WebhookJson config) \<and> enabled config
            \<and> truthy_str (targetChannel config) \<and> (\<forall>ef. is_read ef \<longrightarrow> fails e ef = None)
          \<longrightarrow> (\<exists>k. fst (handleTelegramMessage e upd w)
                      = Inr [(''success'', JBool False), (''reason'', JStr ''already_saved''),
                             (''existingFileId'', JStr k)]
                 \<and> meta_TgFileId (snd (kv_getWithMetadata (store w) k)) = Some (fileId fi)))"
proof -
  have h: "handleTelegramMessage e upd = process_file e m (toString (chat_id m)) fi"
    using assms(1-3) by (rule handle_file_event)
  obtain r w' where run: "process_file e m (toString (chat_id m)) fi w = (r, w')"
    by (cases "process_file e m (toString (chat_id m)) fi w")
  from process_file_duplicate_quiet [OF assms(4) run] run
  have a: "store (snd (handleTelegramMessage e upd w)) = store w
       \<and> (\<exists>ops. trace (snd (handleTelegramMessage e upd w)) = trace w @ ops
                \<and> list_all is_read ops)"
    by (simp add: h)
  have b: "kv_get (store w) webhook_key = Some (WebhookJson config) \<and> enabled config
            \<and> truthy_str (targetChannel config) \<and> (\<forall>ef. is_read ef \<longrightarrow> fails e ef = None)
          \<longrightarrow> (\<exists>k. fst (handleTelegramMessage e upd w)
                      = Inr [(''success'', JBool False), (''reason'', JStr ''already_saved''),
                             (''existingFileId'', JStr k)]
                 \<and> meta_TgFileId (snd (kv_getWithMetadata (store w) k)) = Some (fileId fi))"
    unfolding h using process_file_already_saved [OF assms(4), of config e m] by blast
  from a b show ?thesis by blast
qed

lemma example_extract:
  "extract_file example_env example_photo_message = Inr (Some example_photo_info)"
  by (simp add: extract_file_def example_photo_message_def example_photos_def largestPhoto_def
      example_env_def example_photo_info_def show_nat.simps digit_char_def)

lemma example_not_command: "\<not> is_dir_command example_photo_message"
  by (simp add: is_dir_command_def command_parts_def example_photo_message_def)

lemma example_duplicate: "stored_duplicate (stored_photo # s) ''large2''"
  by (simp add: stored_duplicate_def stored_photo_def kv_list_def kv_getWithMetadata_def
      startsWith_def example_meta_def)

theorem duplicate_is_refused_before_allocation_witness:
  "store (snd (handleTelegramMessage example_env \<lparr>message = Some example_photo_message\<rparr>
                 \<lparr>store = stored_photo # example_store, trace = []\<rparr>))
     = stored_photo # example_store
   \<and> (\<exists>ops. trace (snd (handleTelegramMessage example_env
                           \<lparr>message = Some example_photo_message\<rparr>
                           \<lparr>store = stored_photo # example_store, trace = []\<rparr>)) = [] @ ops
          \<and> list_all is_read ops)
   \<and> (\<exists>k. fst (handleTelegramMessage example_env \<lparr>message = Some example_photo_message\<rparr>
                  \<lparr>store = stored_photo # example_store, trace = []\<rparr>)
             = Inr [(''success'', JBool False), (''reason'', JStr ''already_saved''),
                    (''existingFileId'', JStr k)]
        \<and> meta_TgFileId (snd (kv_getWithMetadata (stored_photo # example_store) k))
             = Some ''large2'')"
proof -
  let ?w = "\<lparr>store = stored_photo # example_store, trace = []\<rparr>"
  have 1: "message \<lparr>message = Some example_photo_message\<rparr> = Some example_photo_message"
    by simp
  have 4: "stored_duplicate (store ?w) (fileId example_photo_info)"
    by (simp add: example_duplicate example_photo_info_def)
  have 5: "kv_get (store ?w) webhook_key
             = Some (WebhookJson \<lparr>enabled = True, targetChannel = Some ''main''\<rparr>)"
    by (simp add: kv_get_def stored_photo_def example_store_def webhook_key_def)
  have 6: "\<forall>ef. is_read ef \<longrightarrow> fails example_env ef = None"
    by (simp add: example_env_def)
  from duplicate_is_refused_before_allocation [OF 1 example_not_command example_extract 4,
      of "\<lparr>enabled = True, targetChannel = Some ''main''\<rparr>"] 5 6
  show ?thesis by (simp add: example_photo_info_def)
qed

text \<open>
  The claim as stated promises \<open>already_saved\<close> for every such event. The handler
  reads the webhook configuration first (lines 98 to 107): with no configuration in the
  store, a photo that is already stored is answered \<open>webhook_not_configured\<close>.
\<close>

theorem duplicate_with_webhook_unconfigured:
  "stored_duplicate [stored_photo] ''large2''
   \<and> extract_file example_env example_photo_message = Inr (Some example_photo_info)
   \<and> fileId example_photo_info = ''large2''
   \<and> fst (handleTelegramMessage example_env \<lparr>message = Some example_photo_message\<rparr>
            \<lparr>store = [stored_photo], trace = []\<rparr>)
       = Inr [(''success'', JBool False), (''reason'', JStr ''webhook_not_configured'')]"
proof -
  have "fst (process_file example_env example_photo_message ''42'' example_photo_info
               \<lparr>store = [stored_photo], trace = []\<rparr>)
          = Inr [(''success'', JBool False), (''reason'', JStr ''webhook_not_configured'')]"
    by (simp add: process_file_def read_webhook_config_def run_simps example_env_def
        kv_get_def stored_photo_def webhook_key_def failure_def)
  moreover have "toString (chat_id example_photo_message) = ''42''"
    by (simp add: example_photo_message_def toString_def show_nat.simps digit_char_def)
  ultimately show ?thesis
    using handle_file_event [OF _ example_not_command example_extract,
        of "\<lparr>message = Some example_photo_message\<rparr>"]
    by (simp add: example_duplicate example_extract example_photo_info_def)
qed

section \<open>The store write and what follows it\<close>

lemma store_and_notify_cases:
  assumes run: "store_and_notify e chatId fullId md mediaGroupId w = (r, w')"
  obtains (file_put_failed) msg where
        "fails e (DbPut fullId (Str []) (Some (FileMeta md)) None) = Some msg"
      and "r = Inr (database_error msg)"
      and "w' = w\<lparr>trace := trace w @ [DbPut fullId (Str []) (Some (FileMeta md)) None]\<rparr>"
    | (index_put_failed) g msg where "nonempty mediaGroupId = Some g"
      and "fails e (DbPut fullId (Str []) (Some (FileMeta md)) None) = None"
      and "fails e (DbPut (batch_index_key g fullId) (Str fullId)
                      (Some (IndexMeta (FileSize md))) (Some 3600)) = Some msg"
      and "r = Inr (database_error msg)"
      and "w' = w\<lparr>store := kv_put (store w) fullId (file_entry md),
                   trace := trace w @ [DbPut fullId (Str []) (Some (FileMeta md)) None,
                     DbPut (batch_index_key g fullId) (Str fullId)
                       (Some (IndexMeta (FileSize md))) (Some 3600)]\<rparr>"
    | (single) "nonempty mediaGroupId = None"
      and "fails e (DbPut fullId (Str []) (Some (FileMeta md)) None) = None"
      and "r = Inr (success fullId md mediaGroupId)"
      and "w' = w\<lparr>store := indexed e (kv_put (store w) fullId (file_entry md)) fullId md,
                   trace := trace w @ [DbPut fullId (Str []) (Some (FileMeta md)) None,
                     EndUpload fullId, SendMessage chatId (Saved fullId (FileSize md))]\<rparr>"
    | (grouped) g where "nonempty mediaGroupId = Some g"
      and "fails e (DbPut fullId (Str []) (Some (FileMeta md)) None) = None"
      and "fails e (DbPut (batch_index_key g fullId) (Str fullId)
                      (Some (IndexMeta (FileSize md))) (Some 3600)) = None"
      and "bnd (batch_step e chatId fullId g) (\<lambda>_. ret (success fullId md mediaGroupId))
             (w\<lparr>store := indexed e (kv_put (kv_put (store w) fullId (file_entry md))
                                    (batch_index_key g fullId) (index_entry fullId md)) fullId md,
                trace := trace w @ [DbPut fullId (Str []) (Some (FileMeta md)) None,
                  DbPut (batch_index_key g fullId) (Str fullId)
                    (Some (IndexMeta (FileSize md))) (Some 3600),
                  EndUpload fullId]\<rparr>) = (r, w')"
proof (cases "fails e (DbPut fullId (Str []) (Some (FileMeta md)) None)")
  case (Some msg)
  with run show thesis using file_put_failed [of msg]
    by (auto simp: store_and_notify_def write_db_def run_simps database_error_def)
next
  case None
  note put1 = this
  show thesis
  proof (cases "nonempty mediaGroupId")
    case None
    with run put1 show thesis using single
      by (auto simp: store_and_notify_def write_db_def single_reply_def run_simps file_entry_def
          split: option.splits)
  next
    case (Some g)
    note grp = this
    show thesis
    proof (cases "fails e (DbPut (batch_index_key g fullId) (Str fullId)
                      (Some (IndexMeta (FileSize md))) (Some 3600))")
      case (Some msg)
      with run put1 grp show thesis using index_put_failed [of g msg]
        by (auto simp: store_and_notify_def write_db_def run_simps database_error_def
            file_entry_def)
    next
      case None
      with run put1 grp show thesis using grouped [of g]
        by (auto simp: store_and_notify_def write_db_def run_simps file_entry_def
            index_entry_def split: option.splits)
    qed
  qed
qed

lemma issues_batch_step:
  assumes "P (DbGet (batch_key g))" and "P (SendMessage chatId ReceivingBatch)"
    and "\<And>b. P (DbPut (batch_key g) (BatchJson b) None (Some 60))"
    and "P (WaitUntil \<lparr>task_group = g, task_chat = chatId\<rparr>)"
  shows "issues P (batch_step e chatId fullId g)"
  unfolding batch_step_def batch_read_def batch_send_def batch_write_def
  using assms
  by (auto intro!: issues_bnd issues_catch split: option.split sval.split)

lemma handle_cases:
  assumes run: "handleTelegramMessage e upd w = (r, w')"
  obtains (unprocessed) ops where "w' = w\<lparr>trace := trace w @ ops\<rparr>"
      and "list_all is_read ops" and "refusal r"
    | (command) m parts where "message upd = Some m" and "is_dir_command m"
      and "handle_dir_command e (toString (chat_id m)) parts w = (r, w')"
    | (no_key) m fi ops d er where "message upd = Some m" and "\<not> is_dir_command m"
      and "extract_file e m = Inr (Some fi)"
      and "w' = w\<lparr>trace := trace w @ ops @ [BuildUniqueFileId d (fileName fi)]\<rparr>"
      and "list_all is_read ops" and "r = Inl er"
      and "\<not> stored_duplicate (store w) (fileId fi)"
    | (stored) m fi ops d config ch fullId where "message upd = Some m"
      and "\<not> is_dir_command m" and "extract_file e m = Inr (Some fi)"
      and "list_all is_read ops" and "\<not> stored_duplicate (store w) (fileId fi)"
      and "store_and_notify e (toString (chat_id m)) fullId
             (build_metadata e m (toString (chat_id m)) fi config ch fullId) (media_group_id m)
             (w\<lparr>trace := trace w @ ops @ [BuildUniqueFileId d (fileName fi)]\<rparr>) = (r, w')"
      and "filter is_batch_read ops
             = map DbGetWithMetadata (filter is_batch_key (kv_list (store w) []))"
proof -
  note outer_no_key = no_key and outer_stored = stored
  show thesis
  proof (cases "message upd")
  case None
  with run show thesis using unprocessed [of "[]"]
    by (auto simp: handleTelegramMessage_def ret_def refusal_def failure_def)
next
  case (Some m)
  note msg = this
  show thesis
  proof (cases "is_dir_command m")
    case True
    then obtain parts where "command_parts m = Some parts"
      by (auto simp: is_dir_command_def split: option.splits)
    with run msg True show thesis using command [of m parts]
      by (simp add: handleTelegramMessage_def)
  next
    case False
    note nc = this
    show thesis
    proof (cases "extract_file e m")
      case (Inl er)
      with run msg nc show thesis using unprocessed [of "[]"]
        by (auto simp: handleTelegramMessage_def raise_def refusal_def)
    next
      case (Inr x)
      show thesis
      proof (cases x)
        case None
        with run msg nc Inr show thesis using unprocessed [of "[]"]
          by (auto simp: handleTelegramMessage_def ret_def refusal_def failure_def)
      next
        case (Some fi)
        with run msg nc Inr
        have "process_file e m (toString (chat_id m)) fi w = (r, w')"
          by (simp add: handleTelegramMessage_def)
        then show thesis
        proof (cases rule: process_file_cases)
          case (early ops)
          then show thesis using unprocessed by blast
        next
          case (no_key ops d er)
          with msg nc Inr Some show thesis using outer_no_key by blast
        next
          case (stored ops d config ch fullId)
          with msg nc Inr Some show thesis using outer_stored by blast
        qed
      qed
    qed
  qed
qed
qed

lemma reads_hold_no_put:
  assumes "list_all is_read ops"
  shows "list_ex (\<lambda>ef. is_file_put ef \<and> Q ef) ops = False"
    and "list_ex (\<lambda>ef. is_index_put ef \<and> Q ef) ops = False"
    and "list_ex (\<lambda>ef. (is_file_put ef \<or> is_index_put ef) \<and> Q ef) ops = False"
    and "list_all (\<lambda>ef. \<not> is_batch_put ef \<and> \<not> is_wait ef \<and> \<not> is_send ef) ops"
    and "list_all (\<lambda>ef. \<not> is_file_put ef \<and> \<not> is_index_put ef) ops"
proof -
  have *: "\<And>ef. is_read ef \<Longrightarrow> \<not> is_file_put ef \<and> \<not> is_index_put ef \<and> \<not> is_batch_put ef
             \<and> \<not> is_wait ef \<and> \<not> is_send ef"
  proof -
    fix ef assume "is_read ef" then show "\<not> is_file_put ef \<and> \<not> is_index_put ef
        \<and> \<not> is_batch_put ef \<and> \<not> is_wait ef \<and> \<not> is_send ef" by (cases ef) simp_all
  qed
  from assms * show "list_ex (\<lambda>ef. is_file_put ef \<and> Q ef) ops = False"
    by (auto simp: list_all_iff list_ex_iff)
  from assms * show "list_ex (\<lambda>ef. is_index_put ef \<and> Q ef) ops = False"
    by (auto simp: list_all_iff list_ex_iff)
  from assms * show "list_ex (\<lambda>ef. (is_file_put ef \<or> is_index_put ef) \<and> Q ef) ops = False"
    by (auto simp: list_all_iff list_ex_iff)
  from assms * show "list_all (\<lambda>ef. \<not> is_batch_put ef \<and> \<not> is_wait ef \<and> \<not> is_send ef) ops"
    by (auto simp: list_all_iff)
  from assms * show "list_all (\<lambda>ef. \<not> is_file_put ef \<and> \<not> is_index_put ef) ops"
    by (auto simp: list_all_iff)
qed

lemma kv_put_holds: "map_of (kv_put s k en) k = Some en"
  by (induction s k en rule: kv_put.induct) auto

text \<open>
  Claim C4, as amended. If a store write of the primary write step fails (the put of
  the file's metadata, or the put of the batch-index entry of a grouped file), the
  handler returns \<open>{success: false, reason: 'database_error', error}\<close> and issues no
  BatchState write, no deferred task and no notification. When the metadata put is the
  one that failed, the store is as it was. When the batch-index put failed, the effects
  of the invocation end with the metadata put of the file, which succeeded, and the
  failed batch-index put, no other write precedes them, and the store is the one the
  metadata put left: the entry it wrote under the allocated key is in the store the
  handler leaves, there is no rollback.
\<close>

theorem failed_store_write_is_database_error:
  assumes run: "handleTelegramMessage e upd w = (r, w')"
    and tr: "trace w' = trace w @ ops"
    and failed: "list_ex (\<lambda>ef. (is_file_put ef \<or> is_index_put ef) \<and> fails e ef \<noteq> None) ops"
  shows "(\<exists>msg. r = Inr (database_error msg))
       \<and> list_all (\<lambda>ef. \<not> is_batch_put ef \<and> \<not> is_wait ef \<and> \<not> is_send ef) ops
       \<and> (list_ex (\<lambda>ef. is_file_put ef \<and> fails e ef \<noteq> None) ops \<longrightarrow> store w' = store w)
       \<and> (list_ex (\<lambda>ef. is_index_put ef \<and> fails e ef \<noteq> None) ops \<longrightarrow>
            (\<exists>reads g fullId md.
                ops = reads @ [DbPut fullId (Str []) (Some (FileMeta md)) None,
                               DbPut (batch_index_key g fullId) (Str fullId)
                                 (Some (IndexMeta (FileSize md))) (Some 3600)]
              \<and> list_all (\<lambda>ef. \<not> is_file_put ef \<and> \<not> is_index_put ef) reads
              \<and> fails e (DbPut fullId (Str []) (Some (FileMeta md)) None) = None
              \<and> store w' = kv_put (store w) fullId (file_entry md)
              \<and> map_of (store w') fullId = Some (file_entry md)))"
  using run
proof (cases rule: handle_cases)
  case (unprocessed ops0)
  with tr have "ops = ops0" by simp
  with unprocessed(2) failed show ?thesis by (simp add: reads_hold_no_put)
next
  case (command m parts)
  have "issues (\<lambda>ef. \<not> is_file_put ef \<and> \<not> is_index_put ef)
          (handle_dir_command e (toString (chat_id m)) parts)"
    by (rule issues_handle_dir_command) simp_all
  from issuesD [OF this command(3)] tr
  have "list_all (\<lambda>ef. \<not> is_file_put ef \<and> \<not> is_index_put ef) ops" by auto
  with failed show ?thesis by (auto simp: list_all_iff list_ex_iff)
next
  case (no_key m fi ops0 d er)
  with tr have "ops = ops0 @ [BuildUniqueFileId d (fileName fi)]" by simp
  with no_key(5) failed show ?thesis by (simp add: reads_hold_no_put)
next
  case (stored m fi ops0 d config ch fullId)
  let ?md = "build_metadata e m (toString (chat_id m)) fi config ch fullId"
  let ?put1 = "DbPut fullId (Str []) (Some (FileMeta ?md)) None"
  note rd = reads_hold_no_put [OF stored(4)]
  from stored(6) show ?thesis
  proof (cases rule: store_and_notify_cases)
    case (file_put_failed msg)
    with tr have ops: "ops = ops0 @ [BuildUniqueFileId d (fileName fi), ?put1]" by simp
    from file_put_failed show ?thesis unfolding ops by (auto simp: rd)
  next
    case (index_put_failed g msg)
    let ?put2 = "DbPut (batch_index_key g fullId) (Str fullId)
                   (Some (IndexMeta (FileSize ?md))) (Some 3600)"
    from index_put_failed tr
    have ops: "ops = ops0 @ [BuildUniqueFileId d (fileName fi), ?put1, ?put2]"
      by simp
    have a: "\<exists>msg. r = Inr (database_error msg)" using index_put_failed(4) by blast
    have b: "list_all (\<lambda>ef. \<not> is_batch_put ef \<and> \<not> is_wait ef \<and> \<not> is_send ef) ops"
      unfolding ops by (simp add: rd)
    have c: "list_ex (\<lambda>ef. is_file_put ef \<and> fails e ef \<noteq> None) ops \<longrightarrow> store w' = store w"
      unfolding ops using index_put_failed(2) by (simp add: rd)
    have st: "store w' = kv_put (store w) fullId (file_entry ?md)"
      using index_put_failed(5) by simp
    have "ops = (ops0 @ [BuildUniqueFileId d (fileName fi)]) @ [?put1, ?put2]
        \<and> list_all (\<lambda>ef. \<not> is_file_put ef \<and> \<not> is_index_put ef)
            (ops0 @ [BuildUniqueFileId d (fileName fi)])
        \<and> fails e ?put1 = None
        \<and> store w' = kv_put (store w) fullId (file_entry ?md)
        \<and> map_of (store w') fullId = Some (file_entry ?md)"
      using index_put_failed(2) st by (simp add: ops rd kv_put_holds)
    then have d: "\<exists>reads g fullId md.
                ops = reads @ [DbPut fullId (Str []) (Some (FileMeta md)) None,
                               DbPut (batch_index_key g fullId) (Str fullId)
                                 (Some (IndexMeta (FileSize md))) (Some 3600)]
              \<and> list_all (\<lambda>ef. \<not> is_file_put ef \<and> \<not> is_index_put ef) reads
              \<and> fails e (DbPut fullId (Str []) (Some (FileMeta md)) None) = None
              \<and> store w' = kv_put (store w) fullId (file_entry md)
              \<and> map_of (store w') fullId = Some (file_entry md)"
      by blast
    from a b c d show ?thesis by blast
  next
    case single
    with tr have ops: "ops = ops0 @ [BuildUniqueFileId d (fileName fi), ?put1, EndUpload fullId,
        SendMessage (toString (chat_id m)) (Saved fullId (FileSize ?md))]" by simp
    from single failed show ?thesis unfolding ops by (simp add: rd)
  next
    case (grouped g)
    have "issues (\<lambda>ef. \<not> is_file_put ef \<and> \<not> is_index_put ef)
            (bnd (batch_step e (toString (chat_id m)) fullId g)
               (\<lambda>_. ret (success fullId ?md (media_group_id m))))"
      by (intro issues_bnd issues_batch_step issues_ret) simp_all
    from issuesD [OF this grouped(4)] obtain ops2
      where t2: "trace w' = (trace w @ ops0 @ [BuildUniqueFileId d (fileName fi)]) @ [?put1,
                  DbPut (batch_index_key g fullId) (Str fullId)
                    (Some (IndexMeta (FileSize ?md))) (Some 3600), EndUpload fullId] @ ops2"
        and p2: "list_all (\<lambda>ef. \<not> is_file_put ef \<and> \<not> is_index_put ef) ops2"
      by auto
    from t2 tr have ops: "ops = ops0 @ [BuildUniqueFileId d (fileName fi), ?put1,
                  DbPut (batch_index_key g fullId) (Str fullId)
                    (Some (IndexMeta (FileSize ?md))) (Some 3600), EndUpload fullId] @ ops2"
      by simp
    from p2 have "list_ex (\<lambda>ef. (is_file_put ef \<or> is_index_put ef) \<and> fails e ef \<noteq> None) ops2
                    = False"
      by (auto simp: list_ex_iff list_all_iff)
    with failed grouped(2,3) have False
      unfolding ops by (simp add: rd)
    then show ?thesis ..
  qed
qed

lemmas model_defs = handleTelegramMessage_def process_file_def store_and_notify_def write_db_def
  batch_step_def batch_read_def batch_send_def batch_write_def single_reply_def
  read_webhook_config_def getTelegramChannel_def is_dir_command_def command_parts_def
  extract_file_def largestPhoto_def build_metadata_def finalize_def finalize_work_def
  kv_get_def kv_list_def kv_getWithMetadata_def kv_delete_def startsWith_def webhook_key_def
  upload_key_def dir_key_def batch_key_def batch_index_key_def batch_index_prefix_def
  failure_def success_def database_error_def actualDirectory_def lastIndexOf_def substring_def
  zero_mb2_def toString_def show_nat.simps digit_char_def image_mime_def

lemmas example_defs = example_env_def example_store_def example_photo_message_def
  example_photos_def example_album_message_def index_failing_env_def stored_photo_def
  example_meta_def example_photo_info_def

text \<open>
  The claim as stated promises an unchanged store on every \<open>database_error\<close>. For a
  grouped photo whose batch-index put fails, the handler reports \<open>database_error\<close>
  and the entry of the file, absent before, is in the store.
\<close>

theorem index_write_failure_keeps_stored_file:
  "fst (handleTelegramMessage index_failing_env \<lparr>message = Some example_album_message\<rparr>
          \<lparr>store = example_store, trace = []\<rparr>) = Inr (database_error ''quota'')
   \<and> kv_get example_store ''/photo_2024-05-01_7.jpg'' = None
   \<and> kv_get (store (snd (handleTelegramMessage index_failing_env
                            \<lparr>message = Some example_album_message\<rparr>
                            \<lparr>store = example_store, trace = []\<rparr>)))
        ''/photo_2024-05-01_7.jpg'' = Some (Str [])
   \<and> meta_TgFileId (snd (kv_getWithMetadata
        (store (snd (handleTelegramMessage index_failing_env
                       \<lparr>message = Some example_album_message\<rparr>
                       \<lparr>store = example_store, trace = []\<rparr>)))
        ''/photo_2024-05-01_7.jpg'')) = Some ''large2''"
  by (simp add: model_defs run_simps example_defs)

theorem failed_store_write_is_database_error_witness:
  "(\<exists>msg. fst (handleTelegramMessage index_failing_env \<lparr>message = Some example_album_message\<rparr>
         \<lparr>store = example_store, trace = []\<rparr>) = Inr (database_error msg))
   \<and> list_all (\<lambda>ef. \<not> is_batch_put ef \<and> \<not> is_wait ef \<and> \<not> is_send ef) (trace (snd (handleTelegramMessage index_failing_env \<lparr>message = Some example_album_message\<rparr>
         \<lparr>store = example_store, trace = []\<rparr>)))
   \<and> (\<exists>reads g fullId md.
         trace (snd (handleTelegramMessage index_failing_env \<lparr>message = Some example_album_message\<rparr>
           \<lparr>store = example_store, trace = []\<rparr>))
           = reads @ [DbPut fullId (Str []) (Some (FileMeta md)) None,
                      DbPut (batch_index_key g fullId) (Str fullId)
                        (Some (IndexMeta (FileSize md))) (Some 3600)]
       \<and> list_all (\<lambda>ef. \<not> is_file_put ef \<and> \<not> is_index_put ef) reads
       \<and> fails index_failing_env (DbPut fullId (Str []) (Some (FileMeta md)) None) = None
       \<and> store (snd (handleTelegramMessage index_failing_env \<lparr>message = Some example_album_message\<rparr>
           \<lparr>store = example_store, trace = []\<rparr>)) = kv_put example_store fullId (file_entry md)
       \<and> map_of (store (snd (handleTelegramMessage index_failing_env \<lparr>message = Some example_album_message\<rparr>
           \<lparr>store = example_store, trace = []\<rparr>))) fullId = Some (file_entry md))"
proof -
  let ?H = "(handleTelegramMessage index_failing_env \<lparr>message = Some example_album_message\<rparr>
         \<lparr>store = example_store, trace = []\<rparr>)"
  have run: "?H = (fst ?H, snd ?H)" by simp
  have tr: "trace (snd ?H) = trace \<lparr>store = example_store, trace = []\<rparr> @ trace (snd ?H)"
    by simp
  have failed: "list_ex (\<lambda>ef. (is_file_put ef \<or> is_index_put ef)
                  \<and> fails index_failing_env ef \<noteq> None) (trace (snd ?H))"
    by (simp add: model_defs run_simps example_defs)
  have index: "list_ex (\<lambda>ef. is_index_put ef \<and> fails index_failing_env ef \<noteq> None)
                 (trace (snd ?H))"
    by (simp add: model_defs run_simps example_defs)
  from failed_store_write_is_database_error [OF run tr failed] index
  show ?thesis by simp
qed

section \<open>A photo without a size\<close>

text \<open>
  The claim as stated has the chosen element maximal in every non-empty photo array.
  \<open>file_size\<close> is optional in a photo size, and \<open>prev.file_size > current.file_size\<close>
  is false when either side is undefined. For the sizes 20, none, 10 the second element
  displaces the first and the third displaces the second: the handler stores the file
  of the third element, of size 10, where the first has size 20.
\<close>

theorem unsized_photo_displaces_largest:
  "largestPhoto example_unsized_photos = Inr \<lparr>p_file_id = ''little'', p_file_size = Some 10\<rparr>
   \<and> map p_file_size example_unsized_photos = [Some 20, None, Some 10]
   \<and> fst (handleTelegramMessage example_env \<lparr>message = Some example_unsized_message\<rparr>
            \<lparr>store = example_store, trace = []\<rparr>)
       = Inr (success ''/photo_2024-05-01_7.jpg''
                (build_metadata example_env example_unsized_message ''42''
                   \<lparr>fileId = ''little'', fileSize = Some 10,
                     fileName = ''photo_2024-05-01_7.jpg'', fileType = ''image/jpeg''\<rparr>
                   \<lparr>enabled = True, targetChannel = Some ''main''\<rparr>
                   \<lparr>ch_name = ''main'', botToken = ''tok'', proxyUrl = None\<rparr>
                   ''/photo_2024-05-01_7.jpg'') None)
   \<and> meta_TgFileId (snd (kv_getWithMetadata
        (store (snd (handleTelegramMessage example_env \<lparr>message = Some example_unsized_message\<rparr>
                       \<lparr>store = example_store, trace = []\<rparr>)))
        ''/photo_2024-05-01_7.jpg'')) = Some ''little''"
  by (simp add: handleTelegramMessage_def process_file_def store_and_notify_def write_db_def
      single_reply_def read_webhook_config_def getTelegramChannel_def is_dir_command_def
      command_parts_def extract_file_def largestPhoto_def kv_get_def kv_list_def
      kv_getWithMetadata_def startsWith_def webhook_key_def upload_key_def dir_key_def
      toString_def show_nat.simps digit_char_def run_simps example_env_def
      example_store_def example_photo_message_def example_unsized_message_def
      example_unsized_photos_def)

section \<open>Results\<close>

lemma returnsD: "returns Q m \<Longrightarrow> m w = (Inr x, w') \<Longrightarrow> Q x"
  unfolding returns_def by (metis fst_conv sum.simps(6))

lemma returns_ret [intro!]: "Q x \<Longrightarrow> returns Q (ret x)"
  by (simp add: returns_def ret_def)

lemma returns_raise [simp, intro!]: "returns Q (raise er)"
  by (simp add: returns_def raise_def)

lemma returns_bnd [intro!]:
  assumes "\<And>x. returns Q (f x)"
  shows "returns Q (bnd m f)"
  unfolding returns_def
proof
  fix w
  show "case fst (bnd m f w) of Inl er \<Rightarrow> True | Inr x \<Rightarrow> Q x"
  proof (cases "m w")
    case (Pair r w1)
    show ?thesis
    proof (cases r)
      case (Inl er)
      with Pair show ?thesis by (simp add: bnd_def)
    next
      case (Inr x)
      with Pair have "bnd m f w = f x w1" by (simp add: bnd_def)
      with assms [of x] show ?thesis by (simp add: returns_def)
    qed
  qed
qed

lemma result_form_intros:
  "reason \<in> set refusal_reasons \<Longrightarrow> result_form (failure reason)"
  "result_form command_handled"
  "result_form (already_saved k)"
  "result_form (database_error msg)"
  "result_form (success fullId md mediaGroupId)"
  unfolding result_form_def by blast+

lemma returns_store_and_notify:
  "returns result_form (store_and_notify e chatId fullId md mediaGroupId)"
  unfolding store_and_notify_def database_error_def [symmetric]
  by (auto intro!: returns_bnd returns_ret result_form_intros split: option.split)

lemma returns_process_file: "returns result_form (process_file e m chatId fi)"
  unfolding process_file_def already_saved_def [symmetric]
  by (auto intro!: returns_bnd returns_ret returns_store_and_notify result_form_intros
      split: option.split simp: refusal_reasons_def)

lemma returns_handle_dir_command:
  "returns result_form (handle_dir_command e chatId parts)"
  unfolding handle_dir_command_def command_handled_def [symmetric]
  by (auto intro!: returns_bnd returns_ret result_form_intros split: option.split
      simp: refusal_reasons_def)

lemma returns_handle_dir_command_no_file:
  "returns (\<lambda>res. map_of res ''fileId'' = None) (handle_dir_command e chatId parts)"
  unfolding handle_dir_command_def
  by (auto intro!: returns_bnd returns_ret split: option.split simp: failure_def)

lemma returns_handleTelegramMessage: "returns result_form (handleTelegramMessage e upd)"
  unfolding handleTelegramMessage_def
  by (auto intro!: returns_ret returns_process_file returns_handle_dir_command
      result_form_intros split: option.split sum.split simp: refusal_reasons_def)

lemma conforms_forms:
  "reason \<in> set refusal_reasons \<Longrightarrow> conforms (failure reason)"
  "conforms command_handled"
  "conforms (success fullId md mediaGroupId)"
  by (auto simp: conforms_def failure_def command_handled_def success_def split: option.split)

text \<open>
  Claim C9, as amended. Every result the handler returns has the shape
  \<open>{ success: bool, reason?: enum, fileId?: string, metadata?: object,
  mediaGroupId?: string|null }\<close>, except the two that carry one field more: the
  \<open>already_saved\<close> result has exactly the fields \<open>success\<close>, \<open>reason\<close> and
  \<open>existingFileId\<close>, the \<open>database_error\<close> result exactly \<open>success\<close>,
  \<open>reason\<close> and \<open>error\<close>.
\<close>

theorem result_shape:
  assumes "handleTelegramMessage e upd w = (Inr res, w')"
  shows "(\<exists>k. res = already_saved k) \<or> (\<exists>msg. res = database_error msg) \<or> conforms res"
proof -
  from returnsD [OF returns_handleTelegramMessage assms] have "result_form res" .
  then show ?thesis
    unfolding result_form_def using conforms_forms by blast
qed

text \<open>
  The claim as stated gives the \<open>already_saved\<close> and \<open>database_error\<close> results only
  the fields of that shape. A photo that is already stored is answered with a result
  that carries \<open>existingFileId\<close>, which the shape does not have.
\<close>

theorem already_saved_result_has_extra_field:
  "fst (handleTelegramMessage example_env \<lparr>message = Some example_photo_message\<rparr>
          \<lparr>store = stored_photo # example_store, trace = []\<rparr>)
     = Inr [(''success'', JBool False), (''reason'', JStr ''already_saved''),
            (''existingFileId'', JStr ''img/a.jpg'')]
   \<and> \<not> conforms [(''success'', JBool False), (''reason'', JStr ''already_saved''),
                    (''existingFileId'', JStr ''img/a.jpg'')]"
  by (simp add: model_defs run_simps example_defs conforms_def)

lemma example_photo_stored:
  "handleTelegramMessage example_env \<lparr>message = Some example_photo_message\<rparr>
     \<lparr>store = example_store, trace = []\<rparr>
   = (Inr (success ''/photo_2024-05-01_7.jpg'' example_stored_meta None),
      \<lparr>store = example_store @ [(''/photo_2024-05-01_7.jpg'', file_entry example_stored_meta)],
       trace = [DbGet webhook_key, DbList [], DbGetWithMetadata webhook_key,
                DbGetWithMetadata upload_key, DbGet (dir_key ''42''), DbGet upload_key,
                BuildUniqueFileId [] ''photo_2024-05-01_7.jpg'',
                DbPut ''/photo_2024-05-01_7.jpg'' (Str []) (Some (FileMeta example_stored_meta)) None,
                EndUpload ''/photo_2024-05-01_7.jpg'',
                SendMessage ''42'' (Saved ''/photo_2024-05-01_7.jpg'' (Mb 0))]\<rparr>)"
  by (simp add: model_defs run_simps example_defs example_stored_meta_def file_entry_def)

theorem result_shape_witness:
  "fst (handleTelegramMessage example_env \<lparr>message = Some example_photo_message\<rparr>
          \<lparr>store = example_store, trace = []\<rparr>)
     = Inr (success ''/photo_2024-05-01_7.jpg'' example_stored_meta None)
   \<and> ((\<exists>k. success ''/photo_2024-05-01_7.jpg'' example_stored_meta None = already_saved k)
        \<or> (\<exists>msg. success ''/photo_2024-05-01_7.jpg'' example_stored_meta None
                    = database_error msg)
        \<or> conforms (success ''/photo_2024-05-01_7.jpg'' example_stored_meta None))"
  using result_shape [OF example_photo_stored] by (simp add: example_photo_stored)

section \<open>Files outside any group\<close>

lemma filter_send_reads: "list_all is_read ops \<Longrightarrow> filter is_send ops = []"
proof (induction ops)
  case Nil
  show ?case by simp
next
  case (Cons ef ops)
  then show ?case by (cases ef) auto
qed

lemma issues_ungrouped:
  assumes "message upd = Some m" and "nonempty (media_group_id m) = None"
  shows "issues (\<lambda>ef. \<not> is_batch_put ef \<and> \<not> is_index_put ef \<and> \<not> is_wait ef)
           (handleTelegramMessage e upd)"
proof -
  let ?P = "\<lambda>ef. \<not> is_batch_put ef \<and> \<not> is_index_put ef \<and> \<not> is_wait ef"
  have "issues ?P (handle_dir_command e c parts)" for c parts
    by (rule issues_handle_dir_command) simp_all
  moreover have "issues ?P (process_file e m c fi)" for c fi
    by (rule issues_process_file) (simp_all add: assms(2))
  ultimately show ?thesis
    using assms(1) unfolding handleTelegramMessage_def
    by (auto split: option.split sum.split)
qed

text \<open>
  Claim C8, as amended. When the handler has stored a file (it returns \<open>success: true\<close>
  with a \<open>fileId\<close>) of a message without media-group identifier, the effects of that
  invocation end with the one notification send, \<open>Saved\<close> for that file, and hold no
  other send, no write of a BatchState, no write of a batch-index entry and no deferred
  task. The deduplication scan lists every key of the store and fetches the metadata of
  each. The reads of BatchState records among the effects are these fetches, one for
  each BatchState key the store holds, in the order the store lists them: there is no
  other read of a BatchState, and none at all when the store holds no BatchState.
\<close>

theorem ungrouped_file_gets_one_reply:
  assumes run: "handleTelegramMessage e upd w = (Inr res, w')"
    and msg: "message upd = Some m" and ungrouped: "nonempty (media_group_id m) = None"
    and ok: "map_of res ''success'' = Some (JBool True)"
    and fid: "map_of res ''fileId'' = Some (JStr fullId)"
    and tr: "trace w' = trace w @ ops"
  shows "length (filter is_send ops) = 1
       \<and> (\<exists>sz. last ops = SendMessage (toString (chat_id m)) (Saved fullId sz))
       \<and> list_all (\<lambda>ef. \<not> is_batch_put ef \<and> \<not> is_index_put ef \<and> \<not> is_wait ef) ops
       \<and> filter is_batch_read ops
           = map DbGetWithMetadata (filter is_batch_key (kv_list (store w) []))"
proof -
  from issuesD [OF issues_ungrouped [OF msg ungrouped] run] tr
  have quiet: "list_all (\<lambda>ef. \<not> is_batch_put ef \<and> \<not> is_index_put ef \<and> \<not> is_wait ef) ops"
    by auto
  from run have "length (filter is_send ops) = 1
       \<and> (\<exists>sz. last ops = SendMessage (toString (chat_id m)) (Saved fullId sz))
       \<and> filter is_batch_read ops
           = map DbGetWithMetadata (filter is_batch_key (kv_list (store w) []))"
  proof (cases rule: handle_cases)
    case (unprocessed ops0)
    with ok show ?thesis by (simp add: refusal_def)
  next
    case (command m' parts)
    from returnsD [OF returns_handle_dir_command_no_file command(3)] fid show ?thesis
      by simp
  next
    case (no_key m' fi ops0 d er)
    then show ?thesis by simp
  next
    case (stored m' fi ops0 d config ch fullId')
    with msg have m': "m' = m" by simp
    from stored(6) show ?thesis
    proof (cases rule: store_and_notify_cases)
      case (file_put_failed msg)
      with ok show ?thesis by (simp add: database_error_def)
    next
      case (index_put_failed g msg)
      with ok show ?thesis by (simp add: database_error_def)
    next
      case single
      from single(3) fid have "fullId' = fullId" by (simp add: success_def)
      with single(4) tr m' have "ops = ops0 @ [BuildUniqueFileId d (fileName fi),
          DbPut fullId (Str []) (Some (FileMeta
            (build_metadata e m (toString (chat_id m)) fi config ch fullId))) None,
          EndUpload fullId,
          SendMessage (toString (chat_id m)) (Saved fullId (toFixed2_of_bytes (fileSize fi)))]"
        by simp
      with stored(4) stored(7) show ?thesis by (simp add: filter_send_reads)
    next
      case (grouped g)
      with ungrouped m' show ?thesis by simp
    qed
  qed
  with quiet show ?thesis by blast
qed

theorem ungrouped_file_gets_one_reply_witness:
  "length (filter is_send
      (trace (snd (handleTelegramMessage example_env \<lparr>message = Some example_photo_message\<rparr>
                     \<lparr>store = example_store, trace = []\<rparr>)))) = 1
   \<and> (\<exists>sz. last (trace (snd (handleTelegramMessage example_env
                               \<lparr>message = Some example_photo_message\<rparr>
                               \<lparr>store = example_store, trace = []\<rparr>)))
            = SendMessage (toString (chat_id example_photo_message))
                (Saved ''/photo_2024-05-01_7.jpg'' sz))
   \<and> list_all (\<lambda>ef. \<not> is_batch_put ef \<and> \<not> is_index_put ef \<and> \<not> is_wait ef)
       (trace (snd (handleTelegramMessage example_env \<lparr>message = Some example_photo_message\<rparr>
                      \<lparr>store = example_store, trace = []\<rparr>)))
   \<and> filter is_batch_read
       (trace (snd (handleTelegramMessage example_env \<lparr>message = Some example_photo_message\<rparr>
                      \<lparr>store = example_store, trace = []\<rparr>))) = []"
proof -
  let ?w = "\<lparr>store = example_store, trace = []\<rparr>"
  let ?H = "handleTelegramMessage example_env \<lparr>message = Some example_photo_message\<rparr> ?w"
  have run: "?H = (Inr (success ''/photo_2024-05-01_7.jpg'' example_stored_meta None), snd ?H)"
    by (simp add: example_photo_stored)
  have msg: "message \<lparr>message = Some example_photo_message\<rparr> = Some example_photo_message"
    by simp
  have ungrouped: "nonempty (media_group_id example_photo_message) = None"
    by (simp add: example_photo_message_def)
  have ok: "map_of (success ''/photo_2024-05-01_7.jpg'' example_stored_meta None) ''success''
              = Some (JBool True)"
    by (simp add: success_def)
  have fid: "map_of (success ''/photo_2024-05-01_7.jpg'' example_stored_meta None) ''fileId''
              = Some (JStr ''/photo_2024-05-01_7.jpg'')"
    by (simp add: success_def)
  have tr: "trace (snd ?H) = trace ?w @ trace (snd ?H)" by simp
  have none: "filter is_batch_key (kv_list (store ?w) []) = []"
    by (simp add: kv_list_def example_store_def is_batch_key_def startsWith_def)
  from ungrouped_file_gets_one_reply [OF run msg ungrouped ok fid tr] show ?thesis
    unfolding none by simp
qed

text \<open>
  The claim as stated has no BatchState record read. The deduplication scan fetches the
  metadata of every key the store lists (lines 110 to 113), the BatchState records of
  the albums then in progress among them. A photo without media-group identifier that
  arrives while the BatchState of the album \<open>g1\<close> is in the store is stored, with
  its one notification, and the effects of the invocation hold the fetch of that
  BatchState record.
\<close>

theorem ungrouped_file_reads_batch_state:
  "fst (handleTelegramMessage example_env \<lparr>message = Some example_photo_message\<rparr>
          \<lparr>store = example_batch_store, trace = []\<rparr>)
     = Inr (success ''/photo_2024-05-01_7.jpg'' example_stored_meta None)
   \<and> media_group_id example_photo_message = None
   \<and> filter is_batch_read
       (trace (snd (handleTelegramMessage example_env \<lparr>message = Some example_photo_message\<rparr>
                      \<lparr>store = example_batch_store, trace = []\<rparr>)))
     = [DbGetWithMetadata ''telegram_batch_g1'']"
  by (simp add: model_defs run_simps example_defs example_stored_meta_def
      example_batch_store_def is_batch_key_def)

section \<open>The metadata of a stored file\<close>

lemma lastIndexOf_from_absent:
  "c \<notin> set xs \<Longrightarrow> lastIndexOf_from c xs i found = found"
  by (induction xs arbitrary: i found) auto

lemma lastIndexOf_from_last:
  "c \<notin> set after \<Longrightarrow> lastIndexOf_from c (before @ c # after) i found = i + int (length before)"
  by (induction before arbitrary: i found) (auto simp: lastIndexOf_from_absent)

lemma actualDirectory_no_slash: "CHR ''/'' \<notin> set fullId \<Longrightarrow> actualDirectory fullId = []"
  by (simp add: actualDirectory_def lastIndexOf_def lastIndexOf_from_absent)

lemma actualDirectory_last_slash:
  assumes "CHR ''/'' \<notin> set name"
  shows "actualDirectory (dir @ CHR ''/'' # name) = dir @ ''/''"
proof -
  have "lastIndexOf (dir @ CHR ''/'' # name) CHR ''/'' = int (length dir)"
    using assms by (simp add: lastIndexOf_def lastIndexOf_from_last)
  then show ?thesis
    by (simp add: actualDirectory_def substring_def nat_add_distrib)
qed

text \<open>
  What the metadata of a stored file holds (lines 143 to 158): the origin file
  identifier, the chat, the file name, the size in hundredths of a megabyte, the
  directory of the allocated key, the media-group identifier or null. The file type is
  the constant \<open>image/jpeg\<close>; the \<open>fileType\<close> the handler has extracted from the
  message is not used.
\<close>

lemma stored_metadata_fields:
  assumes run: "handleTelegramMessage e upd w = (Inr res, w')"
    and ok: "map_of res ''success'' = Some (JBool True)"
    and fid: "map_of res ''fileId'' = Some (JStr fullId)"
  shows "\<exists>m fi md. message upd = Some m \<and> extract_file e m = Inr (Some fi)
           \<and> map_of res ''metadata'' = Some (JMeta md)
           \<and> DbPut fullId (Str []) (Some (FileMeta md)) None \<in> set (trace w')
           \<and> TgFileId md = fileId fi \<and> TgChatId md = toString (chat_id m)
           \<and> FileName md = fileName fi \<and> FileSize md = toFixed2_of_bytes (fileSize fi)
           \<and> Directory md = actualDirectory fullId
           \<and> MediaGroupId md = nonempty (media_group_id m)
           \<and> FileType md = ''image/jpeg''"
  using run
proof (cases rule: handle_cases)
  case (unprocessed ops0)
  with ok show ?thesis by (simp add: refusal_def)
next
  case (command m parts)
  from returnsD [OF returns_handle_dir_command_no_file command(3)] fid show ?thesis by simp
next
  case (no_key m fi ops0 d er)
  then show ?thesis by simp
next
  case (stored m fi ops0 d config ch fullId')
  let ?md = "build_metadata e m (toString (chat_id m)) fi config ch fullId'"
  have "res = success fullId' ?md (media_group_id m)
        \<and> DbPut fullId' (Str []) (Some (FileMeta ?md)) None \<in> set (trace w')"
    using stored(6)
  proof (cases rule: store_and_notify_cases)
    case (file_put_failed msg)
    with ok show ?thesis by (simp add: database_error_def)
  next
    case (index_put_failed g msg)
    with ok show ?thesis by (simp add: database_error_def)
  next
    case single
    then show ?thesis by simp
  next
    case (grouped g)
    have "returns (\<lambda>r. r = success fullId' ?md (media_group_id m))
            (bnd (batch_step e (toString (chat_id m)) fullId' g)
               (\<lambda>_. ret (success fullId' ?md (media_group_id m))))"
      by (intro returns_bnd returns_ret) simp
    from returnsD [OF this grouped(4)] have r: "res = success fullId' ?md (media_group_id m)" .
    have "issues (\<lambda>ef. True)
            (bnd (batch_step e (toString (chat_id m)) fullId' g)
               (\<lambda>_. ret (success fullId' ?md (media_group_id m))))"
      by (intro issues_bnd issues_batch_step issues_ret) simp_all
    from issuesD [OF this grouped(4)] obtain ops2 where
      "trace w' = (trace w @ ops0 @ [BuildUniqueFileId d (fileName fi)]) @
         [DbPut fullId' (Str []) (Some (FileMeta ?md)) None,
          DbPut (batch_index_key g fullId') (Str fullId') (Some (IndexMeta (FileSize ?md)))
            (Some 3600), EndUpload fullId'] @ ops2"
      by auto
    then have "DbPut fullId' (Str []) (Some (FileMeta ?md)) None \<in> set (trace w')" by simp
    with r show ?thesis by simp
  qed
  then have r: "res = success fullId' ?md (media_group_id m)"
    and p: "DbPut fullId' (Str []) (Some (FileMeta ?md)) None \<in> set (trace w')" by simp_all
  from r fid have f: "fullId' = fullId" by (simp add: success_def)
  have md: "map_of res ''metadata'' = Some (JMeta ?md)" unfolding r by (simp add: success_def)
  show ?thesis
    apply (intro exI [of _ m] exI [of _ fi] exI [of _ ?md])
    using stored(1,3) md p f by simp
qed

text \<open>
  Claim C5 at a PNG document. The declared file type \<open>image/png\<close> is extracted from
  the message, the file is stored, and the metadata written under the allocated key has
  the file type \<open>image/jpeg\<close>; its other fields are as the claim says.
\<close>

theorem declared_file_type_is_not_stored:
  "extract_file example_env example_png_message
     = Inr (Some \<lparr>fileId = ''doc1'', fileSize = Some 131072, fileName = ''cat.png'',
                  fileType = ''image/png''\<rparr>)
   \<and> fst (handleTelegramMessage example_env \<lparr>message = Some example_png_message\<rparr>
            \<lparr>store = example_store, trace = []\<rparr>)
       = Inr (success ''/cat.png''
           \<lparr>Channel = ''TelegramNew'', ChannelName = ''main'', TgFileId = ''doc1'',
            TgChatId = ''42'', TgBotToken = ''tok'', FileName = ''cat.png'',
            FileType = ''image/jpeg'', FileSize = Mb 13, UploadIP = ''Bot'', TimeStamp = 8,
            Label = ''None'', Directory = ''/'', Tags = [], MediaGroupId = None,
            TgProxyUrl = None\<rparr> None)"
  by (simp add: model_defs run_simps example_defs example_png_message_def)

section \<open>The finalize task\<close>

lemma quiet_sum_sizes [simp, intro!]: "quiet (sum_sizes e ks acc)"
proof (induction ks arbitrary: acc)
  case Nil
  show ?case by (simp add: quiet_def)
next
  case (Cons k ks)
  show ?case
    unfolding quiet_def
  proof
    fix w
    obtain r w1 where g: "db_getWithMetadata e k w = (r, w1)" by (cases "db_getWithMetadata e k w")
    from quietD [OF quiet_db_getWithMetadata g] obtain ops1
      where w1: "w1 = w\<lparr>trace := trace w @ ops1\<rparr>" and r1: "list_all is_read ops1" by blast
    show "store (snd (sum_sizes e (k # ks) acc w)) = store w \<and>
          (\<exists>ops. trace (snd (sum_sizes e (k # ks) acc w)) = trace w @ ops \<and> list_all is_read ops)"
    proof (cases r)
      case (Inl er)
      with g w1 r1 show ?thesis by auto
    next
      case (Inr fileData)
      obtain r2 w2 where d: "sum_sizes e ks (acc + meta_size (snd fileData)) w1 = (r2, w2)"
        by (cases "sum_sizes e ks (acc + meta_size (snd fileData)) w1")
      from quietD [OF Cons.IH d] obtain ops2
        where w2: "w2 = w1\<lparr>trace := trace w1 @ ops2\<rparr>" and r2: "list_all is_read ops2" by blast
      from Inr g d w1 w2 r1 r2 show ?thesis by auto
    qed
  qed
qed

lemma sum_sizes_result:
  "sum_sizes e ks acc w = (Inr sz, w') \<Longrightarrow>
     sz = acc + sum_list (map (recorded_size (store w)) ks)
     \<and> w' = w\<lparr>trace := trace w @ map DbGetWithMetadata ks\<rparr>"
proof (induction ks arbitrary: acc w)
  case Nil
  then show ?case by simp
next
  case (Cons k ks)
  from Cons.prems have nf: "fails e (DbGetWithMetadata k) = None"
    by (auto simp: db_getWithMetadata_run split: option.splits)
  with Cons.prems
  have "sum_sizes e ks (acc + recorded_size (store w) k)
          (w\<lparr>trace := trace w @ [DbGetWithMetadata k]\<rparr>) = (Inr sz, w')"
    by (simp add: db_getWithMetadata_run recorded_size_def)
  from Cons.IH [OF this] show ?case by (simp add: add.assoc)
qed

lemma finalize_absent:
  assumes "kv_get (store w) (batch_key (task_group t)) = None"
  shows "finalize e t w =
     (case fails e (DbGet (batch_key (task_group t))) of
        Some msg \<Rightarrow> (Inl (Thrown msg), w\<lparr>trace := trace w @ [DbGet (batch_key (task_group t))]\<rparr>)
      | None \<Rightarrow> (Inr (), w\<lparr>trace := trace w @ [DbGet (batch_key (task_group t))]\<rparr>))"
  using assms by (simp add: finalize_def run_simps split: option.split)

lemma finalize_cases:
  assumes present: "kv_get (store w) (batch_key (task_group t)) = Some (BatchJson b)"
    and run: "finalize e t w = (r, w')"
  obtains (read_failed) ops er where "w' = w\<lparr>trace := trace w @ ops\<rparr>"
      and "list_all is_read ops" and "r = Inl er"
    | (edit_failed) msg where "fails e (final_edit (store w) t b) = Some msg"
      and "r = Inr ()"
      and "w' = w\<lparr>trace := trace w @ final_reads (store w) t @ [final_edit (store w) t b]\<rparr>"
    | (delete_failed) msg where "fails e (final_edit (store w) t b) = None"
      and "fails e (DbDelete (batch_key (task_group t))) = Some msg"
      and "r = Inr ()"
      and "w' = w\<lparr>trace := trace w @ final_reads (store w) t
                     @ [final_edit (store w) t b, DbDelete (batch_key (task_group t))]\<rparr>"
    | (finalized) "fails e (final_edit (store w) t b) = None"
      and "fails e (DbDelete (batch_key (task_group t))) = None"
      and "r = Inr ()"
      and "w' = w\<lparr>store := kv_delete (store w) (batch_key (task_group t)),
                   trace := trace w @ final_reads (store w) t
                     @ [final_edit (store w) t b, DbDelete (batch_key (task_group t))]\<rparr>"
proof -
  let ?bk = "batch_key (task_group t)"
  let ?px = "batch_index_prefix (task_group t)"
  let ?keys = "index_keys (store w) (task_group t)"
  show thesis
  proof (cases "fails e (DbGet ?bk)")
    case (Some msg)
    with run show thesis using read_failed [of "[DbGet ?bk]"]
      by (auto simp: finalize_def run_simps)
  next
    case None
    note get = this
    let ?w1 = "w\<lparr>trace := trace w @ [DbGet ?bk]\<rparr>"
    from run get present have work: "finalize_work e t b ?w1 = (r, w')"
      by (simp add: finalize_def run_simps)
    show thesis
    proof (cases "fails e (DbList ?px)")
      case (Some msg)
      with work show thesis using read_failed [of "[DbGet ?bk, DbList ?px]"]
        by (auto simp: finalize_work_def run_simps)
    next
      case None
      note lst = this
      let ?w2 = "w\<lparr>trace := trace w @ [DbGet ?bk, DbList ?px]\<rparr>"
      obtain r3 w3 where sums: "sum_sizes e ?keys 0 ?w2 = (r3, w3)"
        by (cases "sum_sizes e ?keys 0 ?w2")
      show thesis
      proof (cases r3)
        case (Inl er)
        from quietD [OF quiet_sum_sizes sums] obtain ops
          where "w3 = ?w2\<lparr>trace := trace ?w2 @ ops\<rparr>" and "list_all is_read ops" by blast
        with work lst sums Inl show thesis
          using read_failed [of "[DbGet ?bk, DbList ?px] @ ops"]
          by (auto simp: finalize_work_def run_simps index_keys_def)
      next
        case (Inr sz)
        from sum_sizes_result [OF sums [unfolded Inr]]
        have sz: "sz = sum_list (map (recorded_size (store w)) ?keys)"
          and w3: "w3 = w\<lparr>trace := trace w @ final_reads (store w) t\<rparr>"
          by (simp_all add: final_reads_def)
        let ?edit = "final_edit (store w) t b"
        from work lst sums Inr sz
        have rest: "catch (bnd (editMessageText e (task_chat t) (messageId b)
                          (BatchDone (length ?keys) sz (firstFileId b)))
                        (\<lambda>_. db_delete e ?bk)) (\<lambda>er. ret ()) w3 = (r, w')"
          by (simp add: finalize_work_def run_simps index_keys_def)
        have edit: "EditMessageText (task_chat t) (messageId b)
                      (BatchDone (length ?keys) sz (firstFileId b)) = ?edit"
          by (simp add: final_edit_def sz)
        let ?eff = "EditMessageText (task_chat t) (messageId b)
                      (BatchDone (length ?keys) sz (firstFileId b))"
        show thesis
        proof (cases "fails e ?eff")
          case (Some msg)
          with rest w3 have "r = Inr ()"
            and "w' = w\<lparr>trace := trace w @ final_reads (store w) t @ [?eff]\<rparr>"
            by (auto simp: run_simps)
          with Some show thesis using edit_failed [of msg] unfolding edit by simp
        next
          case None
          note ed = this
          show thesis
          proof (cases "fails e (DbDelete ?bk)")
            case (Some msg)
            with rest w3 ed have "r = Inr ()"
              and "w' = w\<lparr>trace := trace w @ final_reads (store w) t @ [?eff, DbDelete ?bk]\<rparr>"
              by (auto simp: run_simps)
            with Some ed show thesis using delete_failed [of msg] unfolding edit by simp
          next
            case None
            with rest w3 ed have "r = Inr ()"
              and "w' = w\<lparr>store := kv_delete (store w) ?bk,
                     trace := trace w @ final_reads (store w) t @ [?eff, DbDelete ?bk]\<rparr>"
              by (auto simp: run_simps)
            with None ed show thesis using finalized unfolding edit by simp
          qed
        qed
      qed
    qed
  qed
qed





lemmas finalize_example_defs = example_batch_store_def example_task_def index_keys_def
  recorded_size_def


section \<open>Finalizing without a notification handle\<close>

lemma kv_get_deleted [simp]: "kv_get (kv_delete s k) k = None"
  by (induction s) (auto simp: kv_get_def kv_delete_def)

lemma reads_are_no_updates:
  assumes "list_all is_read ops"
  shows "\<not> list_ex is_edit ops" and "\<not> list_ex is_delete ops"
proof -
  have *: "\<not> is_edit ef \<and> \<not> is_delete ef" if "is_read ef" for ef
    using that by (cases ef) simp_all
  from assms * show "\<not> list_ex is_edit ops" by (auto simp: list_all_iff list_ex_iff)
  from assms * show "\<not> list_ex is_delete ops" by (auto simp: list_all_iff list_ex_iff)
qed

lemma sum_sizes_succeeds:
  assumes "\<And>k. fails e (DbGetWithMetadata k) = None"
  shows "\<exists>sz w'. sum_sizes e ks acc w = (Inr sz, w')"
  by (induction ks arbitrary: acc w) (simp_all add: db_getWithMetadata_run assms)

lemma finalize_cases_reliable:
  assumes present: "kv_get (store w) (batch_key (task_group t)) = Some (BatchJson b)"
    and reads: "\<forall>ef. is_read ef \<longrightarrow> fails e ef = None"
    and run: "finalize e t w = (r, w')"
  obtains (edit_failed) msg where "fails e (final_edit (store w) t b) = Some msg"
      and "r = Inr ()"
      and "w' = w\<lparr>trace := trace w @ final_reads (store w) t @ [final_edit (store w) t b]\<rparr>"
    | (delete_failed) msg where "fails e (final_edit (store w) t b) = None"
      and "fails e (DbDelete (batch_key (task_group t))) = Some msg"
      and "r = Inr ()"
      and "w' = w\<lparr>trace := trace w @ final_reads (store w) t
                     @ [final_edit (store w) t b, DbDelete (batch_key (task_group t))]\<rparr>"
    | (finalized) "fails e (final_edit (store w) t b) = None"
      and "fails e (DbDelete (batch_key (task_group t))) = None"
      and "r = Inr ()"
      and "w' = w\<lparr>store := kv_delete (store w) (batch_key (task_group t)),
                   trace := trace w @ final_reads (store w) t
                     @ [final_edit (store w) t b, DbDelete (batch_key (task_group t))]\<rparr>"
  using present run
proof (cases rule: finalize_cases)
  case (read_failed ops er)
  from reads have g: "fails e (DbGet (batch_key (task_group t))) = None"
    and l: "fails e (DbList (batch_index_prefix (task_group t))) = None"
    and m: "\<And>k. fails e (DbGetWithMetadata k) = None" by simp_all
  from sum_sizes_succeeds [of e, OF m] obtain sz w3 where
    "sum_sizes e (index_keys (store w) (task_group t)) 0
       (w\<lparr>trace := trace w @ [DbGet (batch_key (task_group t)),
                              DbList (batch_index_prefix (task_group t))]\<rparr>) = (Inr sz, w3)"
    by blast
  with run present g l read_failed(3) have False
    by (auto simp: finalize_def finalize_work_def run_simps index_keys_def
        split: option.splits prod.splits sum.splits)
  then show ?thesis ..
next
  case (edit_failed msg)
  then show ?thesis using that(1) by blast
next
  case (delete_failed msg)
  then show ?thesis using that(2) by blast
next
  case finalized
  then show ?thesis using that(3) by blast
qed

lemma final_reads_filters [simp]:
  "filter is_edit (final_reads s t) = []"
  "filter is_delete (final_reads s t) = []"
  "filter is_list (final_reads s t) = [DbList (batch_index_prefix (task_group t))]"
  by (simp_all add: final_reads_def filter_empty_conv)

lemma final_edit_kind [simp]:
  "is_edit (final_edit s t b)" "\<not> is_delete (final_edit s t b)" "\<not> is_list (final_edit s t b)"
  by (simp_all add: final_edit_def)

text \<open>
  Claim C3, as amended. When the finalize task finds the BatchState of its group with
  no notification handle set and no read fails, it attempts the edit of the
  notification with the missing handle and ends without an error. It deletes the
  BatchState when that edit call returns and the delete itself does not fail. When the
  edit call raises, no delete is issued and the store, the BatchState with it, is left
  as it was.
\<close>

theorem finalize_without_handle:
  assumes present: "kv_get (store w) (batch_key (task_group t)) = Some (BatchJson b)"
    and unset: "\<not> truthy_num (messageId b)"
    and reads: "\<forall>ef. is_read ef \<longrightarrow> fails e ef = None"
    and run: "finalize e t w = (r, w')"
    and tr: "trace w' = trace w @ ops"
  shows "r = Inr ()
       \<and> filter is_edit ops = [final_edit (store w) t b]
       \<and> (fails e (final_edit (store w) t b) = None
            \<and> fails e (DbDelete (batch_key (task_group t))) = None
          \<longrightarrow> kv_get (store w') (batch_key (task_group t)) = None)
       \<and> (fails e (final_edit (store w) t b) \<noteq> None
          \<longrightarrow> store w' = store w \<and> filter is_delete ops = [])"
  using present reads run
proof (cases rule: finalize_cases_reliable)
  case (edit_failed msg)
  with tr have "ops = final_reads (store w) t @ [final_edit (store w) t b]" by simp
  with edit_failed show ?thesis by simp
next
  case (delete_failed msg)
  with tr have "ops = final_reads (store w) t
      @ [final_edit (store w) t b, DbDelete (batch_key (task_group t))]" by simp
  with delete_failed show ?thesis by simp
next
  case finalized
  with tr have "ops = final_reads (store w) t
      @ [final_edit (store w) t b, DbDelete (batch_key (task_group t))]" by simp
  with finalized show ?thesis by simp
qed

text \<open>
  The claim as stated has the BatchState deleted whenever no handle was set. With the
  handle unset and an edit call that raises, the finalize task ends normally and the
  BatchState is still in the store.
\<close>

theorem failed_edit_leaves_batch_state:
  "kv_get example_unnotified_store ''telegram_batch_g1''
     = Some (BatchJson \<lparr>messageId = None, firstFileId = Some ''/a.jpg''\<rparr>)
   \<and> fst (finalize edit_failing_env example_task
            \<lparr>store = example_unnotified_store, trace = []\<rparr>) = Inr ()
   \<and> kv_get (store (snd (finalize edit_failing_env example_task
                            \<lparr>store = example_unnotified_store, trace = []\<rparr>)))
        ''telegram_batch_g1''
       = Some (BatchJson \<lparr>messageId = None, firstFileId = Some ''/a.jpg''\<rparr>)
   \<and> trace (snd (finalize edit_failing_env example_task
                    \<lparr>store = example_unnotified_store, trace = []\<rparr>))
       = [DbGet ''telegram_batch_g1'', DbList ''batch_index_g1_'',
          DbGetWithMetadata ''batch_index_g1_/a.jpg'',
          EditMessageText ''42'' None (BatchDone 1 (Mb 13) (Some ''/a.jpg''))]"
  by (simp add: model_defs run_simps example_defs finalize_example_defs
      example_unnotified_store_def edit_failing_env_def)

theorem finalize_without_handle_witness:
  "fst (finalize example_env example_task \<lparr>store = example_unnotified_store, trace = []\<rparr>)
     = Inr ()
   \<and> filter is_edit (trace (snd (finalize example_env example_task
                                   \<lparr>store = example_unnotified_store, trace = []\<rparr>)))
       = [EditMessageText ''42'' None (BatchDone 1 (Mb 13) (Some ''/a.jpg''))]
   \<and> kv_get (store (snd (finalize example_env example_task
                            \<lparr>store = example_unnotified_store, trace = []\<rparr>)))
        (batch_key (task_group example_task)) = None"
proof -
  let ?w = "\<lparr>store = example_unnotified_store, trace = []\<rparr>"
  let ?F = "finalize example_env example_task ?w"
  let ?b = "\<lparr>messageId = None, firstFileId = Some ''/a.jpg''\<rparr>"
  have present: "kv_get (store ?w) (batch_key (task_group example_task)) = Some (BatchJson ?b)"
    by (simp add: model_defs example_defs finalize_example_defs example_unnotified_store_def)
  have unset: "\<not> truthy_num (messageId ?b)" by simp
  have reads: "\<forall>ef. is_read ef \<longrightarrow> fails example_env ef = None"
    by (simp add: example_env_def)
  have run: "?F = (fst ?F, snd ?F)" by simp
  have tr: "trace (snd ?F) = trace ?w @ trace (snd ?F)" by simp
  have ok: "fails example_env (final_edit (store ?w) example_task ?b) = None
            \<and> fails example_env (DbDelete (batch_key (task_group example_task))) = None"
    by (simp add: example_env_def)
  have ed: "final_edit (store ?w) example_task ?b
              = EditMessageText ''42'' None (BatchDone 1 (Mb 13) (Some ''/a.jpg''))"
    by (simp add: final_edit_def model_defs example_defs finalize_example_defs
        example_unnotified_store_def)
  from finalize_without_handle [OF present unset reads run tr] ok ed
  show ?thesis by simp
qed

section \<open>How often a group is finalized\<close>

lemma run_tasks_absent:
  assumes "kv_get (store w) (batch_key g) = None"
    and "list_all (\<lambda>et. task_group (snd et) = g) ets"
  shows "run_tasks ets w = w\<lparr>trace := trace w @ replicate (length ets) (DbGet (batch_key g))\<rparr>"
  using assms
proof (induction ets arbitrary: w)
  case Nil
  show ?case by simp
next
  case (Cons et ets)
  let ?w1 = "w\<lparr>trace := trace w @ [DbGet (batch_key g)]\<rparr>"
  from Cons.prems have g: "task_group (snd et) = g" by simp
  with Cons.prems(1) have w1: "snd (finalize (fst et) (snd et) w) = ?w1"
    by (simp add: finalize_absent split: option.split)
  from Cons.prems have "kv_get (store ?w1) (batch_key g) = None"
    and "list_all (\<lambda>et. task_group (snd et) = g) ets" by simp_all
  from Cons.IH [OF this] w1 show ?case
    by (simp add: replicate_append_same)
qed

text \<open>
  Claim C1, as amended. Let the finalize tasks of a group wake one after another with
  no arrival of the group in between, the BatchState being present when the first
  wakes, and let no call of the first task fail. Then, however many tasks there are
  and whatever the others' environments, the index scan is run once, the notification
  is edited once, the BatchState is deleted once, and it is absent at the end. A
  finalize task that finds the BatchState absent issues its read and nothing else: the
  store is as it was.
\<close>

theorem finalize_once_after_last_arrival:
  assumes present: "kv_get (store w) (batch_key g) = Some (BatchJson b)"
    and first: "task_group t = g" "\<forall>ef. fails e ef = None"
    and others: "list_all (\<lambda>et. task_group (snd et) = g) ets"
    and tr: "trace (run_tasks ((e, t) # ets) w) = trace w @ ops"
  shows "length (filter (\<lambda>ef. ef = DbList (batch_index_prefix g)) ops) = 1
       \<and> filter is_edit ops = [final_edit (store w) t b]
       \<and> filter is_delete ops = [DbDelete (batch_key g)]
       \<and> kv_get (store (run_tasks ((e, t) # ets) w)) (batch_key g) = None
       \<and> (\<forall>e' t' w'. kv_get (store w') (batch_key (task_group t')) = None \<longrightarrow>
             store (snd (finalize e' t' w')) = store w'
           \<and> trace (snd (finalize e' t' w')) = trace w' @ [DbGet (batch_key (task_group t'))])"
proof -
  obtain r w1 where run: "finalize e t w = (r, w1)" by (cases "finalize e t w")
  from present first(1) have p: "kv_get (store w) (batch_key (task_group t)) = Some (BatchJson b)"
    by simp
  from first(2) have reads: "\<forall>ef. is_read ef \<longrightarrow> fails e ef = None" by simp
  from p reads run
  have w1: "w1 = w\<lparr>store := kv_delete (store w) (batch_key g),
                   trace := trace w @ final_reads (store w) t
                     @ [final_edit (store w) t b, DbDelete (batch_key g)]\<rparr>"
    using first by (cases rule: finalize_cases_reliable) simp_all
  then have "kv_get (store w1) (batch_key g) = None" by simp
  from run_tasks_absent [OF this others] run
  have all: "run_tasks ((e, t) # ets) w
               = w1\<lparr>trace := trace w1 @ replicate (length ets) (DbGet (batch_key g))\<rparr>"
    by simp
  with tr w1 have ops: "ops = final_reads (store w) t
      @ [final_edit (store w) t b, DbDelete (batch_key g)]
      @ replicate (length ets) (DbGet (batch_key g))" by simp
  have 1: "length (filter (\<lambda>ef. ef = DbList (batch_index_prefix g)) ops) = 1"
    unfolding ops using first(1)
    by (simp add: final_reads_def final_edit_def filter_empty_conv image_iff)
  have 2: "filter is_edit ops = [final_edit (store w) t b]"
    unfolding ops by simp
  have 3: "filter is_delete ops = [DbDelete (batch_key g)]"
    unfolding ops by simp
  have 4: "kv_get (store (run_tasks ((e, t) # ets) w)) (batch_key g) = None"
    unfolding all using w1 by simp
  have 5: "\<forall>e' t' w'. kv_get (store w') (batch_key (task_group t')) = None \<longrightarrow>
             store (snd (finalize e' t' w')) = store w'
           \<and> trace (snd (finalize e' t' w')) = trace w' @ [DbGet (batch_key (task_group t'))]"
    by (simp add: finalize_absent split: option.split)
  from 1 2 3 4 5 show ?thesis by blast
qed

text \<open>
  The claim as stated has the work done once for every sequence of arrivals. When the
  second photo of an album arrives after the finalize task of the first has deleted the
  BatchState, the second arrival creates the BatchState anew and its finalize task does
  the work again: two tasks were scheduled for the group, the notification is edited
  twice and the BatchState is deleted twice.
\<close>

theorem late_arrival_is_finalized_again:
  "filter is_wait (trace late_arrival_run) = [WaitUntil example_task, WaitUntil example_task]
   \<and> filter is_edit (trace late_arrival_run)
       = [EditMessageText ''42'' (Some 101) (BatchDone 1 (Mb 0) (Some ''/photo_2024-05-01_7.jpg'')),
          EditMessageText ''42'' (Some 102) (BatchDone 2 (Mb 0) (Some ''/photo_2024-05-01_9.jpg''))]
   \<and> filter is_delete (trace late_arrival_run)
       = [DbDelete ''telegram_batch_g1'', DbDelete ''telegram_batch_g1'']"
  by (simp add: late_arrival_run_def model_defs run_simps example_defs finalize_example_defs
      example_album_message2_def later_env_def)

theorem finalize_once_after_last_arrival_witness:
  "length (filter (\<lambda>ef. ef = DbList (batch_index_prefix ''g1'')) (trace (run_tasks [(example_env, example_task), (edit_failing_env, example_task),
                     (example_env, example_task)]
           \<lparr>store = example_batch_store, trace = []\<rparr>))) = 1
   \<and> filter is_edit (trace (run_tasks [(example_env, example_task), (edit_failing_env, example_task),
                     (example_env, example_task)]
           \<lparr>store = example_batch_store, trace = []\<rparr>))
       = [EditMessageText ''42'' (Some 101) (BatchDone 2 (Mb 263) (Some ''/a.jpg''))]
   \<and> filter is_delete (trace (run_tasks [(example_env, example_task), (edit_failing_env, example_task),
                     (example_env, example_task)]
           \<lparr>store = example_batch_store, trace = []\<rparr>)) = [DbDelete (batch_key ''g1'')]
   \<and> kv_get (store (run_tasks [(example_env, example_task), (edit_failing_env, example_task),
                     (example_env, example_task)]
           \<lparr>store = example_batch_store, trace = []\<rparr>)) (batch_key ''g1'') = None
   \<and> store (snd (finalize edit_failing_env example_task (run_tasks [(example_env, example_task), (edit_failing_env, example_task),
                     (example_env, example_task)]
           \<lparr>store = example_batch_store, trace = []\<rparr>))) = store (run_tasks [(example_env, example_task), (edit_failing_env, example_task),
                     (example_env, example_task)]
           \<lparr>store = example_batch_store, trace = []\<rparr>)
   \<and> trace (snd (finalize edit_failing_env example_task (run_tasks [(example_env, example_task), (edit_failing_env, example_task),
                     (example_env, example_task)]
           \<lparr>store = example_batch_store, trace = []\<rparr>)))
       = trace (run_tasks [(example_env, example_task), (edit_failing_env, example_task),
                     (example_env, example_task)]
           \<lparr>store = example_batch_store, trace = []\<rparr>) @ [DbGet (batch_key (task_group example_task))]"
proof -
  let ?w = "\<lparr>store = example_batch_store, trace = []\<rparr>"
  let ?b = "\<lparr>messageId = Some 101, firstFileId = Some ''/a.jpg''\<rparr>"
  let ?R = "(run_tasks [(example_env, example_task), (edit_failing_env, example_task),
                     (example_env, example_task)]
           \<lparr>store = example_batch_store, trace = []\<rparr>)"
  have present: "kv_get (store ?w) (batch_key ''g1'') = Some (BatchJson ?b)"
    by (simp add: model_defs example_defs finalize_example_defs)
  have g: "task_group example_task = ''g1''" by (simp add: example_task_def)
  have reliable: "\<forall>ef. fails example_env ef = None" by (simp add: example_env_def)
  have others: "list_all (\<lambda>et. task_group (snd et) = ''g1'')
                  [(edit_failing_env, example_task), (example_env, example_task)]"
    by (simp add: example_task_def)
  have tr: "trace ?R = trace ?w @ trace ?R" by simp
  have ed: "final_edit (store ?w) example_task ?b
              = EditMessageText ''42'' (Some 101) (BatchDone 2 (Mb 263) (Some ''/a.jpg''))"
    by (simp add: final_edit_def model_defs example_defs finalize_example_defs)
  note T = finalize_once_after_last_arrival [OF present g reliable others tr]
  from T have absent: "kv_get (store ?R) (batch_key (task_group example_task)) = None"
    by (simp add: g)
  from T have "kv_get (store ?R) (batch_key (task_group example_task)) = None \<longrightarrow>
      store (snd (finalize edit_failing_env example_task ?R)) = store ?R
      \<and> trace (snd (finalize edit_failing_env example_task ?R))
          = trace ?R @ [DbGet (batch_key (task_group example_task))]"
    by blast
  with absent T ed show ?thesis by simp
qed

section \<open>The BatchState of a group\<close>

lemma map_of_kv_put_same [simp]: "map_of (kv_put s k en) k = Some en"
  by (induction s k en rule: kv_put.induct) auto

lemma map_of_kv_put_other [simp]: "k' \<noteq> k \<Longrightarrow> map_of (kv_put s k en) k' = map_of s k'"
  by (induction s k en rule: kv_put.induct) auto







text \<open>
  Every invocation that stores a file of a group and returns its success result has
  run the BatchState update of that group, for the key it stored the file under.
\<close>

lemma grouped_arrival_runs_batch_step:
  assumes run: "handleTelegramMessage e upd w = (Inr res, w')"
    and msg: "message upd = Some m" and grp: "nonempty (media_group_id m) = Some g"
    and saved: "map_of res ''success'' = Some (JBool True)"
    and fid: "map_of res ''fileId'' = Some (JStr fullId)"
  shows "\<exists>w2. batch_step e (toString (chat_id m)) fullId g w2 = (Inr (), w')"
  using run
proof (cases rule: handle_cases)
  case (unprocessed ops)
  with saved show ?thesis by (simp add: refusal_def)
next
  case (command m' parts)
  with returns_handle_dir_command_no_file [of e "toString (chat_id m')" parts] fid
  show ?thesis by (auto simp: returns_def dest!: spec [of _ w])
next
  case (no_key m' fi ops d er)
  then show ?thesis by simp
next
  case (stored m' fi ops d config ch fullId')
  with msg have m': "m' = m" by simp
  from stored(6) show ?thesis
  proof (cases rule: store_and_notify_cases)
    case (file_put_failed msg)
    with saved show ?thesis by (simp add: database_error_def)
  next
    case (index_put_failed g' msg)
    with saved show ?thesis by (simp add: database_error_def)
  next
    case single
    with grp m' show ?thesis by simp
  next
    case (grouped g')
    with grp m' have g': "g' = g" by simp
    from grouped(4) obtain w2 where
      "batch_step e (toString (chat_id m)) fullId' g w2 = (Inr (), w')"
      and "res = success fullId' (build_metadata e m (toString (chat_id m)) fi config ch fullId')
                   (media_group_id m)"
      unfolding g' m'
      by (auto simp: bnd_def ret_def split: prod.splits sum.splits)
    with fid show ?thesis by (auto simp: success_def)
  qed
qed

end
